theory Spec2Isabelle
  imports Main "HOL-Library.Word"
begin

unbundle bit_operations_syntax

section \<open>Go strings, runes and the library functions the program calls\<close>

text \<open>
  A Go \<open>string\<close> is a sequence of bytes: it is modelled by \<^typ>\<open>string\<close>, whose
  characters are bytes. A \<open>rune\<close> is a code point, modelled by a natural number.
  Go's \<open>int\<close> is taken to be 64 bits wide; values that the program can push past
  that width go through \<open>int64\<close>.
\<close>

type_synonym rune = nat

definition RuneError :: rune where
  "RuneError = 0xFFFD"

definition cont_byte :: "nat \<Rightarrow> bool" where
  "cont_byte b = (0x80 \<le> b \<and> b \<le> 0xBF)"

text \<open>
  \<open>utf8.DecodeRuneInString\<close>: the first rune of the bytes and its width; an ill-formed
  or truncated sequence gives \<open>RuneError\<close> and width 1 (width 0 on no bytes).
\<close>

definition decode2 :: "nat \<Rightarrow> nat list \<Rightarrow> rune \<times> nat" where
  "decode2 b0 bs =
     (case bs of
        b1 # _ \<Rightarrow>
          if cont_byte b1 then ((b0 - 0xC0) * 64 + (b1 - 0x80), 2) else (RuneError, 1)
      | [] \<Rightarrow> (RuneError, 1))"

definition decode3 :: "nat \<Rightarrow> nat list \<Rightarrow> rune \<times> nat" where
  "decode3 b0 bs =
     (case bs of
        b1 # b2 # _ \<Rightarrow>
          if (if b0 = 0xE0 then 0xA0 else 0x80) \<le> b1
             \<and> b1 \<le> (if b0 = 0xED then 0x9F else 0xBF) \<and> cont_byte b2
          then ((b0 - 0xE0) * 4096 + (b1 - 0x80) * 64 + (b2 - 0x80), 3)
          else (RuneError, 1)
      | _ \<Rightarrow> (RuneError, 1))"

definition decode4 :: "nat \<Rightarrow> nat list \<Rightarrow> rune \<times> nat" where
  "decode4 b0 bs =
     (case bs of
        b1 # b2 # b3 # _ \<Rightarrow>
          if (if b0 = 0xF0 then 0x90 else 0x80) \<le> b1
             \<and> b1 \<le> (if b0 = 0xF4 then 0x8F else 0xBF) \<and> cont_byte b2 \<and> cont_byte b3
          then ((b0 - 0xF0) * 262144 + (b1 - 0x80) * 4096 + (b2 - 0x80) * 64 + (b3 - 0x80), 4)
          else (RuneError, 1)
      | _ \<Rightarrow> (RuneError, 1))"

definition DecodeRune :: "nat list \<Rightarrow> rune \<times> nat" where
  "DecodeRune bs =
     (case bs of
        [] \<Rightarrow> (RuneError, 0)
      | b0 # rest \<Rightarrow>
          if b0 < 0x80 then (b0, 1)
          else if 0xC2 \<le> b0 \<and> b0 \<le> 0xDF then decode2 b0 rest
          else if 0xE0 \<le> b0 \<and> b0 \<le> 0xEF then decode3 b0 rest
          else if 0xF0 \<le> b0 \<and> b0 \<le> 0xF4 then decode4 b0 rest
          else (RuneError, 1))"

text \<open>
  The runes that \<open>for _, r := range s\<close> and \<open>[]rune(s)\<close> yield. \<open>skip\<close> counts the
  bytes still to pass over, those of the rune decoded last.
\<close>

fun runes_from :: "nat \<Rightarrow> nat list \<Rightarrow> rune list" where
  "runes_from skip [] = []"
| "runes_from (Suc skip) (b # bs) = runes_from skip bs"
| "runes_from 0 (b # bs) =
     fst (DecodeRune (b # bs)) # runes_from (snd (DecodeRune (b # bs)) - 1) bs"

definition runes :: "string \<Rightarrow> rune list" where
  "runes s = runes_from 0 (map of_char s)"

text \<open>
  \<open>utf8.AppendRune\<close>: the UTF-8 bytes of a rune; a surrogate or a value past
  \<open>U+10FFFF\<close> is written as \<open>RuneError\<close>.
\<close>

definition valid_rune :: "rune \<Rightarrow> bool" where
  "valid_rune r = (r \<le> 0x10FFFF \<and> \<not> (0xD800 \<le> r \<and> r \<le> 0xDFFF))"

definition EncodeRune :: "rune \<Rightarrow> nat list" where
  "EncodeRune r =
     (if r < 0x80 then [r]
      else if r < 0x800 then [0xC0 + r div 64, 0x80 + r mod 64]
      else if \<not> valid_rune r then [0xEF, 0xBF, 0xBD]
      else if r < 0x10000 then [0xE0 + r div 4096, 0x80 + (r div 64) mod 64, 0x80 + r mod 64]
      else [0xF0 + r div 262144, 0x80 + (r div 4096) mod 64, 0x80 + (r div 64) mod 64,
            0x80 + r mod 64])"

text \<open>A rune as it is read back from the bytes that \<open>utf8.AppendRune\<close> wrote.\<close>

definition fix_rune :: "rune \<Rightarrow> rune" where
  "fix_rune r = (if valid_rune r then r else RuneError)"

definition string_of_runes :: "rune list \<Rightarrow> string" where
  "string_of_runes rs = map char_of (concat (map EncodeRune rs))"

text \<open>
  The tables of package \<open>unicode\<close> are not part of the repository. On ASCII the three
  functions the program calls are fixed by the Unicode standard and written out; beyond
  ASCII they are read from a parameter. \<open>number_tab\<close> is category N, the test of
  \<open>unicode.IsNumber\<close>; \<open>digit_tab\<close> is category Nd, the decimal digits, the test of
  \<open>unicode.IsDigit\<close>, which the program does not call and which only the statement of
  the claim about \<open>isPalindrome\<close> needs.
\<close>

record unicode_tables =
  letter_tab :: "rune \<Rightarrow> bool"
  number_tab :: "rune \<Rightarrow> bool"
  digit_tab :: "rune \<Rightarrow> bool"
  lower_tab :: "rune \<Rightarrow> rune"

definition unicode_IsLetter :: "unicode_tables \<Rightarrow> rune \<Rightarrow> bool" where
  "unicode_IsLetter U r =
     (if r < 0x80 then (0x41 \<le> r \<and> r \<le> 0x5A) \<or> (0x61 \<le> r \<and> r \<le> 0x7A)
      else letter_tab U r)"

definition unicode_IsNumber :: "unicode_tables \<Rightarrow> rune \<Rightarrow> bool" where
  "unicode_IsNumber U r = (if r < 0x80 then 0x30 \<le> r \<and> r \<le> 0x39 else number_tab U r)"

definition unicode_IsDigit :: "unicode_tables \<Rightarrow> rune \<Rightarrow> bool" where
  "unicode_IsDigit U r = (if r < 0x80 then 0x30 \<le> r \<and> r \<le> 0x39 else digit_tab U r)"

definition unicode_ToLower :: "unicode_tables \<Rightarrow> rune \<Rightarrow> rune" where
  "unicode_ToLower U r =
     (if r < 0x80 then (if 0x41 \<le> r \<and> r \<le> 0x5A then r + 32 else r) else lower_tab U r)"

text \<open>
  \<open>strings.ToLower\<close>: every rune of the string mapped by \<open>unicode.ToLower\<close> and
  written back as UTF-8 (on an ASCII string this is the byte-wise lower-casing of Go's
  fast path).
\<close>

definition strings_ToLower :: "unicode_tables \<Rightarrow> string \<Rightarrow> string" where
  "strings_ToLower U s = string_of_runes (map (unicode_ToLower U) (runes s))"

text \<open>Tables with no letter, number or case pair beyond ASCII, for closed examples on
  ASCII inputs (where no table entry is read).\<close>

definition ascii_tables :: unicode_tables where
  "ascii_tables = \<lparr>letter_tab = (\<lambda>r. False), number_tab = (\<lambda>r. False),
     digit_tab = (\<lambda>r. False), lower_tab = (\<lambda>r. r)\<rparr>"

text \<open>
  The tables of Unicode on Latin-1 (up to \<open>U+00FF\<close>) and nothing beyond: the letters
  \<open>U+00AA\<close>, \<open>U+00B5\<close>, \<open>U+00BA\<close>, \<open>U+00C0\<close> to \<open>U+00FF\<close> without the signs
  \<open>U+00D7\<close> and \<open>U+00F7\<close>; the numbers \<open>U+00B2\<close>, \<open>U+00B3\<close>, \<open>U+00B9\<close> (superscripts)
  and \<open>U+00BC\<close> to \<open>U+00BE\<close> (the fractions, \<open>U+00BD\<close> is one half), none of them a
  decimal digit; the capitals \<open>U+00C0\<close> to \<open>U+00DE\<close> lower-cased 32 places up.
\<close>

definition latin1_tables :: unicode_tables where
  "latin1_tables =
     \<lparr>letter_tab = (\<lambda>r. r = 0xAA \<or> r = 0xB5 \<or> r = 0xBA \<or> (0xC0 \<le> r \<and> r \<le> 0xD6)
                         \<or> (0xD8 \<le> r \<and> r \<le> 0xF6) \<or> (0xF8 \<le> r \<and> r \<le> 0xFF)),
      number_tab = (\<lambda>r. r = 0xB2 \<or> r = 0xB3 \<or> r = 0xB9 \<or> (0xBC \<le> r \<and> r \<le> 0xBE)),
      digit_tab = (\<lambda>r. False),
      lower_tab = (\<lambda>r. if (0xC0 \<le> r \<and> r \<le> 0xD6) \<or> (0xD8 \<le> r \<and> r \<le> 0xDE) then r + 32 else r)\<rparr>"

text \<open>\<open>strings.HasPrefix\<close> and \<open>strings.Contains\<close>.\<close>

fun HasPrefix :: "string \<Rightarrow> string \<Rightarrow> bool" where
  "HasPrefix s [] = True"
| "HasPrefix [] (p # ps) = False"
| "HasPrefix (c # cs) (p # ps) = (c = p \<and> HasPrefix cs ps)"

primrec strings_Contains :: "string \<Rightarrow> string \<Rightarrow> bool" where
  "strings_Contains [] sub = HasPrefix [] sub"
| "strings_Contains (c # cs) sub = (HasPrefix (c # cs) sub \<or> strings_Contains cs sub)"

definition is_digit :: "char \<Rightarrow> bool" where
  "is_digit c = (0x30 \<le> (of_char c :: nat) \<and> (of_char c :: nat) \<le> 0x39)"

definition decimal :: "string \<Rightarrow> int" where
  "decimal ds = foldl (\<lambda>n c. 10 * n + (of_char c - 0x30)) 0 ds"

text \<open>
  \<open>strconv.Atoi\<close>: an optional sign and one or more decimal digits, within the range of
  a 64-bit \<open>int\<close>; \<open>None\<close> stands for the error.
\<close>

definition strconv_Atoi :: "string \<Rightarrow> int option" where
  "strconv_Atoi s =
     (let neg = (s \<noteq> [] \<and> hd s = CHR ''-'');
          ds = (if s \<noteq> [] \<and> (hd s = CHR ''-'' \<or> hd s = CHR ''+'') then tl s else s)
      in if ds = [] \<or> \<not> list_all is_digit ds then None
         else if neg then (if decimal ds \<le> 2 ^ 63 then Some (- decimal ds) else None)
         else (if decimal ds < 2 ^ 63 then Some (decimal ds) else None))"

text \<open>\<open>strconv.ParseBool\<close>.\<close>

definition strconv_ParseBool :: "string \<Rightarrow> bool option" where
  "strconv_ParseBool s =
     (if s \<in> set [''1'', ''t'', ''T'', ''TRUE'', ''true'', ''True''] then Some True
      else if s \<in> set [''0'', ''f'', ''F'', ''FALSE'', ''false'', ''False''] then Some False
      else None)"

text \<open>Arithmetic on Go's \<open>int\<close> wraps around at 64 bits.\<close>

definition int64 :: "int \<Rightarrow> int" where
  "int64 x = (x + 2 ^ 63) mod 2 ^ 64 - 2 ^ 63"

subsection \<open>Regular expressions\<close>

text \<open>
  \<open>FindStringSubmatch\<close> returns the leftmost match: the first position of the text at
  which the expression matches. Each expression of the program has one capture group;
  \<open>Some g\<close> is a match whose group captured \<open>g\<close> (the program's \<open>len(matches) > 1\<close>),
  \<open>None\<close> is no match. The expressions are matched on bytes: their literals, \<open>\d\<close>
  and \<open>[a-z]\<close> are ASCII.
\<close>

primrec find_leftmost :: "(string \<Rightarrow> 'a option) \<Rightarrow> string \<Rightarrow> 'a option" where
  "find_leftmost m [] = m []"
| "find_leftmost m (c # cs) = (case m (c # cs) of Some g \<Rightarrow> Some g | None \<Rightarrow> find_leftmost m cs)"

text \<open>\<open>(w1|w2|...) word\<close> at the start of the text: the first alternative that matches.\<close>

definition match_alternatives :: "string list \<Rightarrow> string \<Rightarrow> string \<Rightarrow> string option" where
  "match_alternatives alts lit s = List.find (\<lambda>w. HasPrefix s (w @ lit)) alts"

text \<open>\<open>(\d+)lit\<close> at the start of the text: \<open>\d+\<close> is greedy, and the literals of the
  program start with a space, so the group is the whole run of digits.\<close>

definition match_digits_then :: "string \<Rightarrow> string \<Rightarrow> string option" where
  "match_digits_then lit s =
     (let ds = takeWhile is_digit s
      in if ds \<noteq> [] \<and> HasPrefix (dropWhile is_digit s) lit then Some ds else None)"

text \<open>\<open>lit(\d+)\<close> at the start of the text.\<close>

definition match_then_digits :: "string \<Rightarrow> string \<Rightarrow> string option" where
  "match_then_digits lit s =
     (let ds = takeWhile is_digit (drop (length lit) s)
      in if HasPrefix s lit \<and> ds \<noteq> [] then Some ds else None)"

text \<open>\<open>lit([a-z])\<close> at the start of the text.\<close>

definition match_then_lower :: "string \<Rightarrow> string \<Rightarrow> string option" where
  "match_then_lower lit s =
     (if HasPrefix s lit then
        (case drop (length lit) s of
           c # _ \<Rightarrow> if 0x61 \<le> (of_char c :: nat) \<and> (of_char c :: nat) \<le> 0x7A then Some [c] else None
         | [] \<Rightarrow> None)
      else None)"

definition reWordCount :: "string \<Rightarrow> string option" where
  "reWordCount = find_leftmost (match_alternatives
     [''single'', ''one'', ''two'', ''three'', ''four'', ''five'', ''six'', ''seven'', ''eight'',
      ''nine'', ''ten''] '' word'')"

definition reWordCountNum :: "string \<Rightarrow> string option" where
  "reWordCountNum = find_leftmost (match_digits_then '' word'')"

definition reLongerThan :: "string \<Rightarrow> string option" where
  "reLongerThan = find_leftmost (match_then_digits ''longer than '')"

definition reShorterThan :: "string \<Rightarrow> string option" where
  "reShorterThan = find_leftmost (match_then_digits ''shorter than '')"

definition reExactlyLength :: "string \<Rightarrow> string option" where
  "reExactlyLength = find_leftmost (match_then_digits ''exactly '')"

definition reContainsChar :: "string \<Rightarrow> string option" where
  "reContainsChar = find_leftmost (match_then_lower ''contains the letter '')"

section \<open>The natural-language translator: \<open>ParseNaturalLanguageQuery\<close>\<close>

text \<open>The values of the \<open>map[string]interface{}\<close> that holds the parsed filters.\<close>

datatype fvalue = VBool bool | VInt int | VString string

type_synonym filters = "string \<rightharpoonup> fvalue"

text \<open>The four errors of the translator, with their messages.\<close>

datatype nl_error =
  ErrUnsupportedWordCount string
| ErrConflictingLength
| ErrConflictingMinMax
| ErrUnableToParse

fun err_Error :: "nl_error \<Rightarrow> string" where
  "err_Error (ErrUnsupportedWordCount w) = ''unsupported word count '' @ [CHR 0x27] @ w @ [CHR 0x27]"
| "err_Error ErrConflictingLength = ''conflicting length filters detected''"
| "err_Error ErrConflictingMinMax =
     ''query resulted in conflicting length filters (min_length > max_length)''"
| "err_Error ErrUnableToParse = ''unable to parse natural language query into filters''"

text \<open>The type assertion \<open>parsedFilters[k].(int)\<close>.\<close>

definition as_int :: "filters \<Rightarrow> string \<Rightarrow> int option" where
  "as_int parsedFilters k = (case parsedFilters k of Some (VInt n) \<Rightarrow> Some n | _ \<Rightarrow> None)"

definition palindromeRule :: "string \<Rightarrow> filters \<Rightarrow> filters" where
  "palindromeRule lowerQuery parsedFilters =
     (if strings_Contains lowerQuery ''palindrome'' \<or> strings_Contains lowerQuery ''palindromic''
      then parsedFilters(''is_palindrome'' \<mapsto> VBool True) else parsedFilters)"

definition wordCountRule :: "string \<Rightarrow> filters \<Rightarrow> nl_error + filters" where
  "wordCountRule lowerQuery parsedFilters =
     (case reWordCount lowerQuery of
        Some m1 \<Rightarrow>
          if m1 = ''single'' \<or> m1 = ''one'' then Inr (parsedFilters(''word_count'' \<mapsto> VInt 1))
          else if m1 = ''two'' then Inr (parsedFilters(''word_count'' \<mapsto> VInt 2))
          else if m1 = ''three'' then Inr (parsedFilters(''word_count'' \<mapsto> VInt 3))
          else if m1 = ''four'' then Inr (parsedFilters(''word_count'' \<mapsto> VInt 4))
          else if m1 = ''five'' then Inr (parsedFilters(''word_count'' \<mapsto> VInt 5))
          else Inl (ErrUnsupportedWordCount m1)
      | None \<Rightarrow>
          (case reWordCountNum lowerQuery of
             Some m1 \<Rightarrow>
               (case strconv_Atoi m1 of
                  Some num \<Rightarrow> Inr (parsedFilters(''word_count'' \<mapsto> VInt num))
                | None \<Rightarrow> Inr parsedFilters)
           | None \<Rightarrow> Inr parsedFilters))"

definition longerThanRule :: "string \<Rightarrow> filters \<Rightarrow> nl_error + filters" where
  "longerThanRule lowerQuery parsedFilters =
     (case reLongerThan lowerQuery of
        Some m1 \<Rightarrow>
          (case strconv_Atoi m1 of
             Some num \<Rightarrow>
               (case as_int parsedFilters ''min_length'' of
                  Some existingMin \<Rightarrow>
                    if existingMin > int64 (num + 1) then Inl ErrConflictingLength
                    else Inr (parsedFilters(''min_length'' \<mapsto> VInt (int64 (num + 1))))
                | None \<Rightarrow> Inr (parsedFilters(''min_length'' \<mapsto> VInt (int64 (num + 1)))))
           | None \<Rightarrow> Inr parsedFilters)
      | None \<Rightarrow> Inr parsedFilters)"

definition shorterThanRule :: "string \<Rightarrow> filters \<Rightarrow> nl_error + filters" where
  "shorterThanRule lowerQuery parsedFilters =
     (case reShorterThan lowerQuery of
        Some m1 \<Rightarrow>
          (case strconv_Atoi m1 of
             Some num \<Rightarrow>
               (case as_int parsedFilters ''max_length'' of
                  Some existingMax \<Rightarrow>
                    if existingMax < int64 (num - 1) then Inl ErrConflictingLength
                    else Inr (parsedFilters(''max_length'' \<mapsto> VInt (int64 (num - 1))))
                | None \<Rightarrow> Inr (parsedFilters(''max_length'' \<mapsto> VInt (int64 (num - 1)))))
           | None \<Rightarrow> Inr parsedFilters)
      | None \<Rightarrow> Inr parsedFilters)"

definition exactlyRule :: "string \<Rightarrow> filters \<Rightarrow> nl_error + filters" where
  "exactlyRule lowerQuery parsedFilters =
     (case reExactlyLength lowerQuery of
        Some m1 \<Rightarrow>
          (case strconv_Atoi m1 of
             Some num \<Rightarrow>
               if (case as_int parsedFilters ''min_length'' of
                     Some existingMin \<Rightarrow> existingMin > num | None \<Rightarrow> False)
               then Inl ErrConflictingLength
               else if (case as_int parsedFilters ''max_length'' of
                          Some existingMax \<Rightarrow> existingMax < num | None \<Rightarrow> False)
               then Inl ErrConflictingLength
               else Inr (parsedFilters(''min_length'' \<mapsto> VInt num, ''max_length'' \<mapsto> VInt num))
           | None \<Rightarrow> Inr parsedFilters)
      | None \<Rightarrow> Inr parsedFilters)"

definition containsCharRule :: "string \<Rightarrow> filters \<Rightarrow> filters" where
  "containsCharRule lowerQuery parsedFilters =
     (case reContainsChar lowerQuery of
        Some m1 \<Rightarrow> parsedFilters(''contains_character'' \<mapsto> VString m1)
      | None \<Rightarrow>
          if strings_Contains lowerQuery ''contains the first vowel''
          then parsedFilters(''contains_character'' \<mapsto> VString ''a'')
          else parsedFilters)"

text \<open>The rules in the order of the source, each on the filters the earlier ones left;
  an error returns at once.\<close>

definition applyRules :: "string \<Rightarrow> nl_error + filters" where
  "applyRules lowerQuery =
     (case wordCountRule lowerQuery (palindromeRule lowerQuery Map.empty) of
        Inl e \<Rightarrow> Inl e
      | Inr f1 \<Rightarrow>
     (case longerThanRule lowerQuery f1 of
        Inl e \<Rightarrow> Inl e
      | Inr f2 \<Rightarrow>
     (case shorterThanRule lowerQuery f2 of
        Inl e \<Rightarrow> Inl e
      | Inr f3 \<Rightarrow>
     (case exactlyRule lowerQuery f3 of
        Inl e \<Rightarrow> Inl e
      | Inr f4 \<Rightarrow> Inr (containsCharRule lowerQuery f4)))))"

text \<open>The two checks that close the function.\<close>

definition finalChecks :: "filters \<Rightarrow> nl_error + filters" where
  "finalChecks parsedFilters =
     (if (case as_int parsedFilters ''min_length'' of
            Some minLen \<Rightarrow>
              (case as_int parsedFilters ''max_length'' of
                 Some maxLen \<Rightarrow> minLen > maxLen
               | None \<Rightarrow> False)
          | None \<Rightarrow> False)
      then Inl ErrConflictingMinMax
      else if parsedFilters = Map.empty then Inl ErrUnableToParse
      else Inr parsedFilters)"

definition ParseNaturalLanguageQuery :: "unicode_tables \<Rightarrow> string \<Rightarrow> nl_error + filters" where
  "ParseNaturalLanguageQuery U query =
     (case applyRules (strings_ToLower U query) of
        Inl e \<Rightarrow> Inl e
      | Inr parsedFilters \<Rightarrow> finalChecks parsedFilters)"

text \<open>\<open>NaturalLanguageFilterHandler\<close> answers an error of the translator with status
  422 when its message contains \<open>conflicting\<close>, and with 400 otherwise.\<close>

definition nl_error_status :: "nl_error \<Rightarrow> nat" where
  "nl_error_status e = (if strings_Contains (err_Error e) ''conflicting'' then 422 else 400)"

section \<open>SHA-256 (package \<open>crypto/sha256\<close>) and \<open>generateSHA256Hash\<close>\<close>

text \<open>
  The digest of FIPS 180-4 on 32-bit words, held as integers below \<open>2 ^ 32\<close>, so that
  the hash of a given string can be computed inside the logic. The round constants and
  the initial hash value are written in decimal.
\<close>

definition sha256_K :: "int list" where
  "sha256_K = [
   1116352408, 1899447441, 3049323471, 3921009573, 961987163, 1508970993, 2453635748, 2870763221,
   3624381080, 310598401, 607225278, 1426881987, 1925078388, 2162078206, 2614888103, 3248222580,
   3835390401, 4022224774, 264347078, 604807628, 770255983, 1249150122, 1555081692, 1996064986,
   2554220882, 2821834349, 2952996808, 3210313671, 3336571891, 3584528711, 113926993, 338241895,
   666307205, 773529912, 1294757372, 1396182291, 1695183700, 1986661051, 2177026350, 2456956037,
   2730485921, 2820302411, 3259730800, 3345764771, 3516065817, 3600352804, 4094571909, 275423344,
   430227734, 506948616, 659060556, 883997877, 958139571, 1322822218, 1537002063, 1747873779,
   1955562222, 2024104815, 2227730452, 2361852424, 2428436474, 2756734187, 3204031479, 3329325298]"

definition sha256_H0 :: "int list" where
  "sha256_H0 = [1779033703, 3144134277, 1013904242, 2773480762, 1359893119, 2600822924,
     528734635, 1541459225]"

definition add32 :: "int \<Rightarrow> int \<Rightarrow> int" where
  "add32 x y = (x + y) mod 4294967296"

definition rotr :: "nat \<Rightarrow> int \<Rightarrow> int" where
  "rotr n x = x div 2 ^ n + (x mod 2 ^ n) * 2 ^ (32 - n)"

definition bsig0 :: "int \<Rightarrow> int" where
  "bsig0 x = rotr 2 x XOR rotr 13 x XOR rotr 22 x"

definition bsig1 :: "int \<Rightarrow> int" where
  "bsig1 x = rotr 6 x XOR rotr 11 x XOR rotr 25 x"

definition ssig0 :: "int \<Rightarrow> int" where
  "ssig0 x = rotr 7 x XOR rotr 18 x XOR x div 2 ^ 3"

definition ssig1 :: "int \<Rightarrow> int" where
  "ssig1 x = rotr 17 x XOR rotr 19 x XOR x div 2 ^ 10"

definition ch :: "int \<Rightarrow> int \<Rightarrow> int \<Rightarrow> int" where
  "ch x y z = (x AND y) XOR ((4294967295 - x) AND z)"

definition maj :: "int \<Rightarrow> int \<Rightarrow> int \<Rightarrow> int" where
  "maj x y z = (x AND y) XOR (x AND z) XOR (y AND z)"

definition temp1 :: "int \<Rightarrow> int \<Rightarrow> int \<Rightarrow> int \<Rightarrow> int \<Rightarrow> int \<Rightarrow> int" where
  "temp1 e f g h k w = add32 (add32 (add32 h (bsig1 e)) (add32 (ch e f g) k)) w"

definition temp2 :: "int \<Rightarrow> int \<Rightarrow> int \<Rightarrow> int" where
  "temp2 a b c = add32 (bsig0 a) (maj a b c)"

fun round_step :: "int \<Rightarrow> int \<Rightarrow> int list \<Rightarrow> int list" where
  "round_step k w [a, b, c, d, e, f, g, h] =
     [add32 (temp1 e f g h k w) (temp2 a b c), a, b, c, add32 d (temp1 e f g h k w), e, f, g]"
| "round_step k w st = st"

primrec rounds :: "int list \<Rightarrow> int list \<Rightarrow> int list \<Rightarrow> int list" where
  "rounds [] ws st = st"
| "rounds (k # ks) ws st = rounds ks (tl ws) (round_step k (hd ws) st)"

text \<open>The message schedule; \<open>ws\<close> holds the words computed so far, the latest first.\<close>

primrec schedule :: "nat \<Rightarrow> int list \<Rightarrow> int list" where
  "schedule 0 ws = ws"
| "schedule (Suc n) ws =
     schedule n (add32 (add32 (ssig1 (ws ! 1)) (ws ! 6)) (add32 (ssig0 (ws ! 14)) (ws ! 15)) # ws)"

fun be32 :: "int list \<Rightarrow> int list" where
  "be32 (a # b # c # d # bs) = (((a * 256 + b) * 256 + c) * 256 + d) # be32 bs"
| "be32 _ = []"

definition compress :: "int list \<Rightarrow> int list \<Rightarrow> int list" where
  "compress st block = map2 add32 st (rounds sha256_K (rev (schedule 48 (rev (be32 block)))) st)"

primrec be_bytes :: "nat \<Rightarrow> int \<Rightarrow> int list" where
  "be_bytes 0 n = []"
| "be_bytes (Suc k) n = be_bytes k (n div 256) @ [n mod 256]"

definition pad :: "int list \<Rightarrow> int list" where
  "pad m = m @ [128] @ replicate ((119 - length m mod 64) mod 64) 0 @ be_bytes 8 (8 * int (length m))"

function blocks :: "int list \<Rightarrow> int list \<Rightarrow> int list" where
  "blocks st bs = (if bs = [] then st else blocks (compress st (take 64 bs)) (drop 64 bs))"
  by pat_completeness auto
termination
  by (relation "measure (\<lambda>(st, bs). length bs)") auto

declare blocks.simps [simp del]

definition hexdigit :: "int \<Rightarrow> char" where
  "hexdigit n = ''0123456789abcdef'' ! nat n"

definition hex32 :: "int \<Rightarrow> string" where
  "hex32 w = map (\<lambda>i. hexdigit ((w div 16 ^ i) mod 16)) [7, 6, 5, 4, 3, 2, 1, 0]"

text \<open>\<open>generateSHA256Hash\<close>: the digest of the bytes of the string, in lower-case
  hexadecimal.\<close>

definition generateSHA256Hash :: "string \<Rightarrow> string" where
  "generateSHA256Hash s = concat (map hex32 (blocks sha256_H0 (pad (map of_char s))))"

section \<open>The analyzer\<close>

record StringProperties =
  Length :: int
  IsPalindrome :: bool
  UniqueCharacters :: int
  WordCount :: int
  SHA256Hash :: string
  CharacterFrequencyMap :: "rune \<rightharpoonup> int"

type_synonym time = int

record AnalyzedString =
  ID :: string
  Value :: string
  Properties :: StringProperties
  CreatedAt :: time

definition calculateLength :: "string \<Rightarrow> int" where
  "calculateLength s = int (length (runes s))"

text \<open>The second loop of \<open>isPalindrome\<close>: \<open>i\<close> and \<open>j\<close> close in from the two ends.\<close>

function mirror_loop :: "rune list \<Rightarrow> int \<Rightarrow> int \<Rightarrow> bool" where
  "mirror_loop filteredRunes i j =
     (if i < j then
        (if filteredRunes ! nat i \<noteq> filteredRunes ! nat j then False
         else mirror_loop filteredRunes (i + 1) (j - 1))
      else True)"
  by pat_completeness auto
termination
  by (relation "measure (\<lambda>(fr, i, j). nat (j - i))") auto

declare mirror_loop.simps [simp del]

definition isPalindrome :: "unicode_tables \<Rightarrow> string \<Rightarrow> bool" where
  "isPalindrome U s =
     (let filteredRunes = filter (\<lambda>r. unicode_IsLetter U r \<or> unicode_IsNumber U r)
                                 (runes (strings_ToLower U s))
      in mirror_loop filteredRunes 0 (int (length filteredRunes) - 1))"

definition countUniqueCharacters :: "string \<Rightarrow> int" where
  "countUniqueCharacters s =
     int (card (dom (fold (\<lambda>char seen. seen(char \<mapsto> True)) (runes s) Map.empty)))"

text \<open>
  \<open>unicode.IsSpace\<close> and \<open>strings.TrimSpace\<close>; \<open>\s\<close> of package \<open>regexp\<close> is
  the ASCII class \<open>[\t\n\f\r ]\<close>, and \<open>Split\<close> cuts the text at every match of \<open>\s+\<close>
  (\<open>in_match\<close>: the byte before belongs to a match).
\<close>

definition unicode_IsSpace :: "rune \<Rightarrow> bool" where
  "unicode_IsSpace r =
     ((0x09 \<le> r \<and> r \<le> 0x0D) \<or> r = 0x20 \<or> r = 0x85 \<or> r = 0xA0 \<or> r = 0x1680
      \<or> (0x2000 \<le> r \<and> r \<le> 0x200A) \<or> r = 0x2028 \<or> r = 0x2029 \<or> r = 0x202F \<or> r = 0x205F
      \<or> r = 0x3000)"

fun trim_left :: "nat \<Rightarrow> nat list \<Rightarrow> nat list" where
  "trim_left skip [] = []"
| "trim_left (Suc skip) (b # bs) = trim_left skip bs"
| "trim_left 0 (b # bs) =
     (if unicode_IsSpace (fst (DecodeRune (b # bs)))
      then trim_left (snd (DecodeRune (b # bs)) - 1) bs else b # bs)"

primrec trim_right :: "nat list \<Rightarrow> nat list" where
  "trim_right [] = []"
| "trim_right (b # bs) =
     (if list_all unicode_IsSpace (runes_from 0 (b # bs)) then [] else b # trim_right bs)"

definition strings_TrimSpace :: "string \<Rightarrow> string" where
  "strings_TrimSpace s = map char_of (trim_right (trim_left 0 (map of_char s)))"

definition is_regexp_space :: "char \<Rightarrow> bool" where
  "is_regexp_space c = (c \<in> set [CHR 0x09, CHR 0x0A, CHR 0x0C, CHR 0x0D, CHR 0x20])"

fun split_spaces :: "bool \<Rightarrow> string \<Rightarrow> string \<Rightarrow> string list" where
  "split_spaces in_match word [] = [rev word]"
| "split_spaces in_match word (c # cs) =
     (if is_regexp_space c
      then (if in_match then split_spaces True [] cs else rev word # split_spaces True [] cs)
      else split_spaces False (c # word) cs)"

definition countWords :: "string \<Rightarrow> int" where
  "countWords s =
     (if s = [] then 0
      else int (length (filter (\<lambda>word. word \<noteq> []) (split_spaces False [] (strings_TrimSpace s)))))"

text \<open>\<open>freqMap[char]++\<close>: an absent key reads as 0. A count is at most the length of the
  string, so it does not reach the width of \<open>int\<close>.\<close>

definition increment :: "(rune \<rightharpoonup> int) \<Rightarrow> rune \<Rightarrow> (rune \<rightharpoonup> int)" where
  "increment freqMap char = freqMap(char \<mapsto> (case freqMap char of None \<Rightarrow> 0 | Some n \<Rightarrow> n) + 1)"

definition getCharacterFrequencyMap :: "string \<Rightarrow> (rune \<rightharpoonup> int)" where
  "getCharacterFrequencyMap s = fold (\<lambda>char freqMap. increment freqMap char) (runes s) Map.empty"

definition analyzeString :: "unicode_tables \<Rightarrow> string \<Rightarrow> StringProperties" where
  "analyzeString U v =
     \<lparr>Length = calculateLength v,
      IsPalindrome = isPalindrome U v,
      UniqueCharacters = countUniqueCharacters v,
      WordCount = countWords v,
      SHA256Hash = generateSHA256Hash v,
      CharacterFrequencyMap = getCharacterFrequencyMap v\<rparr>"

text \<open>
  The claim about \<open>isPalindrome\<close> speaks of the string with every character that is
  not a letter or digit removed and the rest lower-cased. This is that sequence, in the
  words of the claim: first remove, then lower-case; a letter is \<open>unicode.IsLetter\<close>,
  a digit is \<open>unicode.IsDigit\<close>.
\<close>

definition alnum_skeleton :: "unicode_tables \<Rightarrow> string \<Rightarrow> rune list" where
  "alnum_skeleton U s =
     map (unicode_ToLower U)
         (filter (\<lambda>r. unicode_IsLetter U r \<or> unicode_IsDigit U r) (runes s))"

text \<open>The same with numbers (\<open>unicode.IsNumber\<close>) in place of digits: the sequence of
  the claim as amended.\<close>

definition letter_number_skeleton :: "unicode_tables \<Rightarrow> string \<Rightarrow> rune list" where
  "letter_number_skeleton U s =
     map (unicode_ToLower U)
         (filter (\<lambda>r. unicode_IsLetter U r \<or> unicode_IsNumber U r) (runes s))"

text \<open>
  What the statements below ask of the tables beyond ASCII, each a fact of the Unicode
  character database: the lower-case mapping yields code points, maps its own results
  to themselves, and keeps a character a letter or number exactly if it was one.
\<close>

definition lower_keeps_valid :: "unicode_tables \<Rightarrow> bool" where
  "lower_keeps_valid U = (\<forall>r. valid_rune r \<longrightarrow> valid_rune (unicode_ToLower U r))"

definition lower_idempotent :: "unicode_tables \<Rightarrow> bool" where
  "lower_idempotent U =
     (\<forall>r. valid_rune r \<longrightarrow> unicode_ToLower U (unicode_ToLower U r) = unicode_ToLower U r)"

definition lower_keeps_class :: "unicode_tables \<Rightarrow> bool" where
  "lower_keeps_class U =
     (\<forall>r. valid_rune r \<longrightarrow>
        (unicode_IsLetter U (unicode_ToLower U r) \<or> unicode_IsNumber U (unicode_ToLower U r))
        = (unicode_IsLetter U r \<or> unicode_IsNumber U r))"

section \<open>The store and its handlers\<close>

text \<open>\<open>stringStore\<close>, a \<open>map[string]AnalyzedString\<close>, and what a handler answers.\<close>

type_synonym store = "string \<rightharpoonup> AnalyzedString"

datatype response =
  Created AnalyzedString
| OK_string AnalyzedString
| OK_filtered "AnalyzedString list" int filters
| NoContent
| BadRequest string
| NotFound
| Conflict
| UnprocessableEntity string

text \<open>
  The body of a \<open>POST /strings\<close> as \<open>ShouldBindJSON\<close> reads it: not JSON (with the
  text of the error), JSON without a \<open>value\<close>, with a \<open>value\<close> that is not a string,
  or with the string \<open>v\<close> as \<open>value\<close>. The tag \<open>binding:"required"\<close> refuses the
  empty string as it refuses a missing field.
\<close>

datatype create_body = BodyMalformed string | BodyNoValue | BodyValueNotString | BodyValue string

definition missing_value :: string where
  "missing_value = ''Missing required field: 'value'' @ [CHR 0x27]"

definition newAnalyzedString :: "unicode_tables \<Rightarrow> time \<Rightarrow> string \<Rightarrow> AnalyzedString" where
  "newAnalyzedString U now v =
     \<lparr>ID = SHA256Hash (analyzeString U v), Value = v, Properties = analyzeString U v,
      CreatedAt = now\<rparr>"

text \<open>
  \<open>CreateStringHandler\<close>, for a call that runs alone: no other call runs between its
  duplicate check (under \<open>mu.RLock\<close>) and its insertion (under \<open>mu.Lock\<close>), which the
  source does not ensure; \<open>run_schedule\<close> below runs the two sections of several calls
  in any order. \<open>now\<close> is the reading of the clock.
\<close>

definition CreateStringHandler ::
  "unicode_tables \<Rightarrow> time \<Rightarrow> create_body \<Rightarrow> store \<Rightarrow> response \<times> store" where
  "CreateStringHandler U now body stringStore =
     (case body of
        BodyMalformed e \<Rightarrow> (BadRequest e, stringStore)
      | BodyNoValue \<Rightarrow> (BadRequest missing_value, stringStore)
      | BodyValueNotString \<Rightarrow>
          (UnprocessableEntity ''Invalid data type for 'value' field, expected string'',
           stringStore)
      | BodyValue v \<Rightarrow>
          if v = [] then (BadRequest missing_value, stringStore)
          else if stringStore (generateSHA256Hash v) \<noteq> None then (Conflict, stringStore)
          else (Created (newAnalyzedString U now v),
                stringStore(ID (newAnalyzedString U now v) \<mapsto> newAnalyzedString U now v)))"

definition GetSpecificStringHandler :: "string \<Rightarrow> store \<Rightarrow> response" where
  "GetSpecificStringHandler stringValue stringStore =
     (case stringStore stringValue of
        Some analyzedStr \<Rightarrow> OK_string analyzedStr
      | None \<Rightarrow>
          (case stringStore (generateSHA256Hash stringValue) of
             Some analyzedStr \<Rightarrow> OK_string analyzedStr
           | None \<Rightarrow> NotFound))"

definition DeleteStringHandler :: "string \<Rightarrow> store \<Rightarrow> response \<times> store" where
  "DeleteStringHandler stringValue stringStore =
     (if stringStore stringValue \<noteq> None then (NoContent, stringStore(stringValue := None))
      else if stringStore (generateSHA256Hash stringValue) \<noteq> None
      then (NoContent, stringStore(generateSHA256Hash stringValue := None))
      else (NotFound, stringStore))"

text \<open>The invariant of the data model.\<close>

definition store_inv :: "store \<Rightarrow> bool" where
  "store_inv stringStore =
     ((\<forall>k a. stringStore k = Some a \<longrightarrow> ID a = k \<and> ID a = generateSHA256Hash (Value a))
      \<and> (\<forall>k k' a a'. stringStore k = Some a \<and> stringStore k' = Some a' \<and> k \<noteq> k'
            \<longrightarrow> ID a \<noteq> ID a'))"

text \<open>No record of the first store is changed in the second: it is kept or deleted, and
  a record under a key that was free is new.\<close>

definition records_kept :: "store \<Rightarrow> store \<Rightarrow> bool" where
  "records_kept s s' = (\<forall>k a. s k = Some a \<longrightarrow> s' k = Some a \<or> s' k = None)"

subsection \<open>Concurrent calls of \<open>CreateStringHandler\<close>\<close>

text \<open>
  The handler reads the store under \<open>mu.RLock\<close>, releases it, and writes under
  \<open>mu.Lock\<close>, whatever the store then holds: between the two sections other calls can
  run. A call (its body bound to a value) is at its check, at its insertion (the check
  found nothing), or has answered; one step of a call is one of its locked sections, and
  a schedule names the call that steps next and the reading of the clock.
\<close>

datatype create_call = AtCheck string | AtInsert string | Answered response

definition call_step ::
  "unicode_tables \<Rightarrow> time \<Rightarrow> create_call \<Rightarrow> store \<Rightarrow> create_call \<times> store" where
  "call_step U now call stringStore =
     (case call of
        AtCheck v \<Rightarrow>
          if stringStore (generateSHA256Hash v) \<noteq> None then (Answered Conflict, stringStore)
          else (AtInsert v, stringStore)
      | AtInsert v \<Rightarrow>
          (Answered (Created (newAnalyzedString U now v)),
           stringStore(ID (newAnalyzedString U now v) \<mapsto> newAnalyzedString U now v))
      | Answered r \<Rightarrow> (Answered r, stringStore))"

fun run_schedule ::
  "unicode_tables \<Rightarrow> (nat \<times> time) list \<Rightarrow> create_call list \<times> store \<Rightarrow> create_call list \<times> store"
where
  "run_schedule U [] cfg = cfg"
| "run_schedule U ((i, now) # sched) (calls, stringStore) =
     (if i < length calls
      then run_schedule U sched
             (calls[i := fst (call_step U now (calls ! i) stringStore)],
              snd (call_step U now (calls ! i) stringStore))
      else run_schedule U sched (calls, stringStore))"

subsection \<open>\<open>GetFilteredStringsHandler\<close>\<close>

text \<open>
  \<open>query\<close> is \<open>c.Query\<close>: the value of a query parameter, empty when it is absent. The
  body of the loop, filter by filter: \<open>Inl\<close> is the message of the 400 answer, \<open>Inr\<close>
  the filters recorded so far and \<open>match\<close>.
\<close>

definition check_is_palindrome ::
  "(string \<Rightarrow> string) \<Rightarrow> AnalyzedString \<Rightarrow> filters \<times> bool \<Rightarrow> string + filters \<times> bool" where
  "check_is_palindrome query str fm =
     (if query ''is_palindrome'' \<noteq> [] then
        (case strconv_ParseBool (query ''is_palindrome'') of
           None \<Rightarrow> Inl ''Invalid value for 'is_palindrome', must be boolean (true/false)''
         | Some val \<Rightarrow>
             Inr ((fst fm)(''is_palindrome'' \<mapsto> VBool val),
                  if IsPalindrome (Properties str) \<noteq> val then False else snd fm))
      else Inr fm)"

definition check_min_length ::
  "(string \<Rightarrow> string) \<Rightarrow> AnalyzedString \<Rightarrow> filters \<times> bool \<Rightarrow> string + filters \<times> bool" where
  "check_min_length query str fm =
     (if query ''min_length'' \<noteq> [] then
        (case strconv_Atoi (query ''min_length'') of
           None \<Rightarrow> Inl ''Invalid value for 'min_length', must be a non-negative integer''
         | Some val \<Rightarrow>
             if val < 0 then Inl ''Invalid value for 'min_length', must be a non-negative integer''
             else Inr ((fst fm)(''min_length'' \<mapsto> VInt val),
                       if Length (Properties str) < val then False else snd fm))
      else Inr fm)"

definition check_max_length ::
  "(string \<Rightarrow> string) \<Rightarrow> AnalyzedString \<Rightarrow> filters \<times> bool \<Rightarrow> string + filters \<times> bool" where
  "check_max_length query str fm =
     (if query ''max_length'' \<noteq> [] then
        (case strconv_Atoi (query ''max_length'') of
           None \<Rightarrow> Inl ''Invalid value for 'max_length', must be a non-negative integer''
         | Some val \<Rightarrow>
             if val < 0 then Inl ''Invalid value for 'max_length', must be a non-negative integer''
             else Inr ((fst fm)(''max_length'' \<mapsto> VInt val),
                       if Length (Properties str) > val then False else snd fm))
      else Inr fm)"

definition check_word_count ::
  "(string \<Rightarrow> string) \<Rightarrow> AnalyzedString \<Rightarrow> filters \<times> bool \<Rightarrow> string + filters \<times> bool" where
  "check_word_count query str fm =
     (if query ''word_count'' \<noteq> [] then
        (case strconv_Atoi (query ''word_count'') of
           None \<Rightarrow> Inl ''Invalid value for 'word_count', must be a non-negative integer''
         | Some val \<Rightarrow>
             if val < 0 then Inl ''Invalid value for 'word_count', must be a non-negative integer''
             else Inr ((fst fm)(''word_count'' \<mapsto> VInt val),
                       if WordCount (Properties str) \<noteq> val then False else snd fm))
      else Inr fm)"

definition check_contains_character ::
  "(string \<Rightarrow> string) \<Rightarrow> AnalyzedString \<Rightarrow> filters \<times> bool \<Rightarrow> string + filters \<times> bool" where
  "check_contains_character query str fm =
     (if query ''contains_character'' \<noteq> [] then
        (case runes (query ''contains_character'') of
           [charToFind] \<Rightarrow>
             Inr ((fst fm)(''contains_character'' \<mapsto> VString (query ''contains_character'')),
                  if charToFind \<notin> dom (CharacterFrequencyMap (Properties str)) then False
                  else snd fm)
         | _ \<Rightarrow> Inl ''Invalid value for 'contains_character', must be a single character'')
      else Inr fm)"

definition loop_body ::
  "(string \<Rightarrow> string) \<Rightarrow> AnalyzedString \<Rightarrow> filters \<Rightarrow> string + filters \<times> bool" where
  "loop_body query str filters =
     (case check_is_palindrome query str (filters, True) of Inl e \<Rightarrow> Inl e | Inr fm1 \<Rightarrow>
     (case check_min_length query str fm1 of Inl e \<Rightarrow> Inl e | Inr fm2 \<Rightarrow>
     (case check_max_length query str fm2 of Inl e \<Rightarrow> Inl e | Inr fm3 \<Rightarrow>
     (case check_word_count query str fm3 of Inl e \<Rightarrow> Inl e | Inr fm4 \<Rightarrow>
      check_contains_character query str fm4))))"

text \<open>The loop over the store; \<open>strs\<close> are its records in the order the \<open>range\<close> visits
  them (an order Go leaves open).\<close>

fun filter_loop ::
  "(string \<Rightarrow> string) \<Rightarrow> AnalyzedString list \<Rightarrow> filters \<Rightarrow> AnalyzedString list \<Rightarrow> response" where
  "filter_loop query [] filters filteredStrings =
     OK_filtered filteredStrings (int (length filteredStrings)) filters"
| "filter_loop query (str # strs) filters filteredStrings =
     (case loop_body query str filters of
        Inl e \<Rightarrow> BadRequest e
      | Inr (filters', match) \<Rightarrow>
          filter_loop query strs filters' (if match then filteredStrings @ [str] else filteredStrings))"

definition GetFilteredStringsHandler ::
  "(string \<Rightarrow> string) \<Rightarrow> AnalyzedString list \<Rightarrow> response" where
  "GetFilteredStringsHandler query strs = filter_loop query strs Map.empty []"

text \<open>A request whose filter parameters are not all well-formed: a parameter that is
  present and that the handler's own validation of it rejects.\<close>

definition invalid_filter_request :: "(string \<Rightarrow> string) \<Rightarrow> bool" where
  "invalid_filter_request query =
     ((query ''is_palindrome'' \<noteq> [] \<and> strconv_ParseBool (query ''is_palindrome'') = None)
      \<or> (query ''min_length'' \<noteq> [] \<and> (case strconv_Atoi (query ''min_length'') of
                                            None \<Rightarrow> True | Some val \<Rightarrow> val < 0))
      \<or> (query ''max_length'' \<noteq> [] \<and> (case strconv_Atoi (query ''max_length'') of
                                            None \<Rightarrow> True | Some val \<Rightarrow> val < 0))
      \<or> (query ''word_count'' \<noteq> [] \<and> (case strconv_Atoi (query ''word_count'') of
                                            None \<Rightarrow> True | Some val \<Rightarrow> val < 0))
      \<or> (query ''contains_character'' \<noteq> []
          \<and> length (runes (query ''contains_character'')) \<noteq> 1))"

text \<open>The number words to which the \<open>switch\<close> of the word-count rule gives a count.\<close>

definition supportedWordCount :: "string \<rightharpoonup> int" where
  "supportedWordCount = map_of [(''single'', 1), (''one'', 1), (''two'', 2), (''three'', 3),
     (''four'', 4), (''five'', 5)]"

section \<open>Properties of the translator\<close>

lemmas re_defs = reWordCount_def reWordCountNum_def reLongerThan_def reShorterThan_def
  reExactlyLength_def reContainsChar_def match_alternatives_def match_digits_then_def
  match_then_digits_def match_then_lower_def is_digit_def

lemmas rule_defs = palindromeRule_def wordCountRule_def longerThanRule_def shorterThanRule_def
  exactlyRule_def containsCharRule_def applyRules_def finalChecks_def as_int_def
  strconv_Atoi_def decimal_def int64_def

lemmas lower_defs = strings_ToLower_def runes_def DecodeRune_def string_of_runes_def EncodeRune_def
  unicode_ToLower_def char_of_eq_iff

subsection \<open>Word count by name\<close>

lemma find_leftmost_Some: "find_leftmost m s = Some g \<Longrightarrow> \<exists>t. m t = Some g"
  by (induction s) (auto split: option.splits)

lemma match_alternatives_mem: "match_alternatives alts lit t = Some w \<Longrightarrow> w \<in> set alts"
  by (auto simp: match_alternatives_def find_Some_iff)

lemma reWordCount_mem:
  "reWordCount lq = Some w \<Longrightarrow>
     w \<in> set [''single'', ''one'', ''two'', ''three'', ''four'', ''five'', ''six'', ''seven'',
               ''eight'', ''nine'', ''ten'']"
  unfolding reWordCount_def by (blast dest: find_leftmost_Some match_alternatives_mem)

lemma wordCountRule_named:
  assumes "reWordCount lq = Some w"
  shows "(\<exists>n. supportedWordCount w = Some n \<and>
              wordCountRule lq pf = Inr (pf(''word_count'' \<mapsto> VInt n)))
         \<or> (w \<in> set [''six'', ''seven'', ''eight'', ''nine'', ''ten'']
            \<and> wordCountRule lq pf = Inl (ErrUnsupportedWordCount w))"
  using reWordCount_mem [OF assms] assms
  by (auto simp: wordCountRule_def supportedWordCount_def)

lemma wordCountRule_error:
  assumes "wordCountRule lq pf = Inl e"
  shows "\<exists>w. reWordCount lq = Some w \<and> w \<in> set [''six'', ''seven'', ''eight'', ''nine'', ''ten'']
             \<and> e = ErrUnsupportedWordCount w"
proof (cases "reWordCount lq")
  case None
  with assms show ?thesis
    by (simp add: wordCountRule_def split: option.splits)
next
  case (Some w)
  from wordCountRule_named [OF Some, of pf] assms Some show ?thesis
    by auto
qed

lemma wordCountRule_keeps:
  "wordCountRule lq pf = Inr f \<Longrightarrow> k \<noteq> ''word_count'' \<Longrightarrow> f k = pf k"
  by (auto simp: wordCountRule_def split: option.splits if_splits)

lemma lower_six_words:
  "strings_ToLower ascii_tables ''Strings with six words'' = ''strings with six words''"
  by (simp add: lower_defs)

lemma lower_single_word:
  "strings_ToLower ascii_tables ''all single word palindromic strings''
     = ''all single word palindromic strings''"
  by (simp add: lower_defs)

text \<open>
  C1, as the claim states it, fails: the query \<open>Strings with six words\<close> matches the
  pattern with the number word \<open>six\<close>, which the claim counts as supported, and the
  translator fails with the unsupported-word-count error instead of setting the word
  count to 6.
\<close>

theorem C1_six_words_counterexample:
  "reWordCount (strings_ToLower ascii_tables ''Strings with six words'') = Some ''six''
   \<and> wordCountRule (strings_ToLower ascii_tables ''Strings with six words'') Map.empty
       \<noteq> Inr [''word_count'' \<mapsto> VInt 6]
   \<and> ParseNaturalLanguageQuery ascii_tables ''Strings with six words''
       = Inl (ErrUnsupportedWordCount ''six'')"
  unfolding ParseNaturalLanguageQuery_def lower_six_words
  by (simp add: re_defs rule_defs)

text \<open>
  C1, amended: when the lower-cased query matches \<open><number-word> word\<close>, the number
  word \<open>w\<close> of the leftmost match is one of the eleven of the pattern; for \<open>single\<close>,
  \<open>one\<close>, \<open>two\<close>, \<open>three\<close>, \<open>four\<close> and \<open>five\<close> the rule succeeds and sets
  \<open>word_count\<close> to 1, 1, 2, 3, 4 and 5; for \<open>six\<close>, \<open>seven\<close>, \<open>eight\<close>, \<open>nine\<close>
  and \<open>ten\<close> the translator fails with the unsupported-word-count error that names
  \<open>w\<close>. The rule fails in no other case.
\<close>

theorem C1_word_count_by_name:
  "(\<forall>w. reWordCount (strings_ToLower U query) = Some w \<longrightarrow>
      (\<exists>n. supportedWordCount w = Some n
           \<and> wordCountRule (strings_ToLower U query) pf = Inr (pf(''word_count'' \<mapsto> VInt n)))
      \<or> (w \<in> set [''six'', ''seven'', ''eight'', ''nine'', ''ten'']
         \<and> wordCountRule (strings_ToLower U query) pf = Inl (ErrUnsupportedWordCount w)
         \<and> ParseNaturalLanguageQuery U query = Inl (ErrUnsupportedWordCount w)))
   \<and> (\<forall>e. wordCountRule (strings_ToLower U query) pf = Inl e \<longrightarrow>
        (\<exists>w. reWordCount (strings_ToLower U query) = Some w
            \<and> w \<in> set [''six'', ''seven'', ''eight'', ''nine'', ''ten'']
            \<and> e = ErrUnsupportedWordCount w))"
proof (intro conjI allI impI)
  fix w
  assume m: "reWordCount (strings_ToLower U query) = Some w"
  from wordCountRule_named [OF m, of pf]
  show "(\<exists>n. supportedWordCount w = Some n
           \<and> wordCountRule (strings_ToLower U query) pf = Inr (pf(''word_count'' \<mapsto> VInt n)))
      \<or> (w \<in> set [''six'', ''seven'', ''eight'', ''nine'', ''ten'']
         \<and> wordCountRule (strings_ToLower U query) pf = Inl (ErrUnsupportedWordCount w)
         \<and> ParseNaturalLanguageQuery U query = Inl (ErrUnsupportedWordCount w))"
  proof
    assume "\<exists>n. supportedWordCount w = Some n
           \<and> wordCountRule (strings_ToLower U query) pf = Inr (pf(''word_count'' \<mapsto> VInt n))"
    then show ?thesis by blast
  next
    assume u: "w \<in> set [''six'', ''seven'', ''eight'', ''nine'', ''ten'']
         \<and> wordCountRule (strings_ToLower U query) pf = Inl (ErrUnsupportedWordCount w)"
    from wordCountRule_named [OF m, of "palindromeRule (strings_ToLower U query) Map.empty"] u
    have "wordCountRule (strings_ToLower U query) (palindromeRule (strings_ToLower U query) Map.empty)
            = Inl (ErrUnsupportedWordCount w)"
      by (auto simp: supportedWordCount_def)
    then have "ParseNaturalLanguageQuery U query = Inl (ErrUnsupportedWordCount w)"
      by (simp add: ParseNaturalLanguageQuery_def applyRules_def)
    with u show ?thesis by blast
  qed
next
  fix e
  assume "wordCountRule (strings_ToLower U query) pf = Inl e"
  then show "\<exists>w. reWordCount (strings_ToLower U query) = Some w
            \<and> w \<in> set [''six'', ''seven'', ''eight'', ''nine'', ''ten'']
            \<and> e = ErrUnsupportedWordCount w"
    by (rule wordCountRule_error)
qed

theorem C1_word_count_by_name_witness:
  "reWordCount (strings_ToLower ascii_tables ''all single word palindromic strings'') = Some ''single''
   \<and> wordCountRule (strings_ToLower ascii_tables ''all single word palindromic strings'') Map.empty
       = Inr [''word_count'' \<mapsto> VInt 1]
   \<and> wordCountRule (strings_ToLower ascii_tables ''Strings with six words'') Map.empty
       = Inl (ErrUnsupportedWordCount ''six'')
   \<and> reWordCount (strings_ToLower ascii_tables ''Strings with six words'') = Some ''six''"
proof -
  have m: "reWordCount (strings_ToLower ascii_tables ''all single word palindromic strings'')
             = Some ''single''"
    unfolding lower_single_word by (simp add: re_defs)
  have e: "wordCountRule (strings_ToLower ascii_tables ''Strings with six words'') Map.empty
             = Inl (ErrUnsupportedWordCount ''six'')"
    unfolding lower_six_words by (simp add: re_defs rule_defs)
  from C1_word_count_by_name [of ascii_tables "''all single word palindromic strings''" Map.empty,
      THEN conjunct1, rule_format, OF m]
  have s: "wordCountRule (strings_ToLower ascii_tables ''all single word palindromic strings'') Map.empty
          = Inr [''word_count'' \<mapsto> VInt 1]"
    by (simp add: supportedWordCount_def)
  from C1_word_count_by_name [of ascii_tables "''Strings with six words''" Map.empty,
      THEN conjunct2, rule_format, OF e]
  have "reWordCount (strings_ToLower ascii_tables ''Strings with six words'') = Some ''six''"
    by simp
  with s m e show ?thesis by simp
qed

subsection \<open>The contains-character rule\<close>

lemma lower_containing_z:
  "strings_ToLower ascii_tables ''strings containing the letter z''
     = ''strings containing the letter z''"
  by (simp add: lower_defs)

lemma lower_contains_z:
  "strings_ToLower ascii_tables ''strings that contains the letter z''
     = ''strings that contains the letter z''"
  by (simp add: lower_defs)

text \<open>
  C2: the query \<open>strings containing the letter z\<close>, which the README lists among the
  supported queries, matches no rule (the pattern asks for \<open>contains the letter\<close>): the
  translator does not yield \<open>contains_character = z\<close> but fails as unable to parse.
\<close>

theorem C2_containing_the_letter_z:
  "ParseNaturalLanguageQuery ascii_tables ''strings containing the letter z''
     = Inl ErrUnableToParse"
  unfolding ParseNaturalLanguageQuery_def lower_containing_z
  by (simp add: re_defs rule_defs)

text \<open>With \<open>contains\<close> in place of \<open>containing\<close> the rule captures the letter.\<close>

lemma contains_the_letter_z:
  "ParseNaturalLanguageQuery ascii_tables ''strings that contains the letter z''
     = Inr [''contains_character'' \<mapsto> VString ''z'']"
  unfolding ParseNaturalLanguageQuery_def lower_contains_z
  by (simp add: re_defs rule_defs)

subsection \<open>Conflicting length bounds\<close>

lemma Atoi_10: "strconv_Atoi ''10'' = Some 10"
  by (simp add: strconv_Atoi_def decimal_def is_digit_def)

lemma Atoi_5: "strconv_Atoi ''5'' = Some 5"
  by (simp add: strconv_Atoi_def decimal_def is_digit_def)

lemma status_conflicting:
  "nl_error_status ErrConflictingLength = 422" "nl_error_status ErrConflictingMinMax = 422"
  by (simp_all add: nl_error_status_def)

lemma longer_10_shorter_5:
  assumes wc: "wordCountRule lq (palindromeRule lq Map.empty) = Inr f1"
    and lo: "reLongerThan lq = Some ''10''"
    and sh: "reShorterThan lq = Some ''5''"
  shows "(case applyRules lq of Inl e \<Rightarrow> Inl e | Inr pf \<Rightarrow> finalChecks pf) = Inl ErrConflictingLength
       \<or> (case applyRules lq of Inl e \<Rightarrow> Inl e | Inr pf \<Rightarrow> finalChecks pf) = Inl ErrConflictingMinMax"
proof -
  have f1_min: "f1 ''min_length'' = None" and f1_max: "f1 ''max_length'' = None"
    using wordCountRule_keeps [OF wc] by (simp_all add: palindromeRule_def)
  define f2 where "f2 = f1(''min_length'' \<mapsto> VInt 11)"
  define f3 where "f3 = f2(''max_length'' \<mapsto> VInt 4)"
  have l: "longerThanRule lq f1 = Inr f2"
    by (simp add: longerThanRule_def lo Atoi_10 as_int_def f1_min f2_def int64_def)
  have s: "shorterThanRule lq f2 = Inr f3"
    by (simp add: shorterThanRule_def sh Atoi_5 as_int_def f1_max f2_def f3_def int64_def)
  have min3: "as_int f3 ''min_length'' = Some 11" and max3: "as_int f3 ''max_length'' = Some 4"
    by (simp_all add: as_int_def f2_def f3_def)
  have ex: "exactlyRule lq f3 = Inl ErrConflictingLength \<or> exactlyRule lq f3 = Inr f3"
    by (auto simp: exactlyRule_def min3 max3 split: option.splits)
  then show ?thesis
  proof
    assume "exactlyRule lq f3 = Inl ErrConflictingLength"
    then show ?thesis by (simp add: applyRules_def wc l s)
  next
    assume e: "exactlyRule lq f3 = Inr f3"
    have "as_int (containsCharRule lq f3) ''min_length'' = Some 11"
      "as_int (containsCharRule lq f3) ''max_length'' = Some 4"
      using min3 max3 by (simp_all add: containsCharRule_def as_int_def split: option.splits)
    then show ?thesis by (simp add: applyRules_def wc l s e finalChecks_def)
  qed
qed

lemma lower_three_bounds:
  "strings_ToLower ascii_tables ''strings longer than 3 or longer than 10 but shorter than 5''
     = ''strings longer than 3 or longer than 10 but shorter than 5''"
  by (simp add: lower_defs)

lemma lower_two_bounds:
  "strings_ToLower ascii_tables ''strings longer than 10 and shorter than 5''
     = ''strings longer than 10 and shorter than 5''"
  by (simp add: lower_defs)

text \<open>
  C6, as the claim states it, fails: the text of the query below contains both
  \<open>longer than 10\<close> and \<open>shorter than 5\<close>, and the translation succeeds, because only
  the leftmost \<open>longer than N\<close> of a query is read.
\<close>

theorem C6_contains_both_counterexample:
  "strings_Contains ''strings longer than 3 or longer than 10 but shorter than 5'' ''longer than 10''
   \<and> strings_Contains ''strings longer than 3 or longer than 10 but shorter than 5'' ''shorter than 5''
   \<and> ParseNaturalLanguageQuery ascii_tables
         ''strings longer than 3 or longer than 10 but shorter than 5''
       = Inr [''min_length'' \<mapsto> VInt 4, ''max_length'' \<mapsto> VInt 4]"
  unfolding ParseNaturalLanguageQuery_def lower_three_bounds
  by (simp add: re_defs rule_defs)

text \<open>
  C6, amended: when the word-count rule does not fail and the leftmost
  \<open>longer than N\<close> and \<open>shorter than N\<close> of the lower-cased query read 10 and 5, the
  translation fails with a conflicting-filters error (status 422); and whenever, after all
  rules, \<open>min_length\<close> and \<open>max_length\<close> are both set with
  \<open>min_length > max_length\<close>, the translation fails with the conflicting-filters error
  of the final check.
\<close>

theorem C6_conflicting_length_bounds:
  "(\<forall>f1. wordCountRule (strings_ToLower U query)
             (palindromeRule (strings_ToLower U query) Map.empty) = Inr f1
        \<and> reLongerThan (strings_ToLower U query) = Some ''10''
        \<and> reShorterThan (strings_ToLower U query) = Some ''5''
      \<longrightarrow> (\<exists>e. ParseNaturalLanguageQuery U query = Inl e \<and> nl_error_status e = 422))
   \<and> (\<forall>pf minLen maxLen. applyRules (strings_ToLower U query) = Inr pf
        \<and> as_int pf ''min_length'' = Some minLen \<and> as_int pf ''max_length'' = Some maxLen
        \<and> minLen > maxLen
      \<longrightarrow> ParseNaturalLanguageQuery U query = Inl ErrConflictingMinMax
          \<and> nl_error_status ErrConflictingMinMax = 422)"
  using longer_10_shorter_5 [of "strings_ToLower U query"]
  by (auto simp: ParseNaturalLanguageQuery_def finalChecks_def status_conflicting)

theorem C6_conflicting_length_bounds_witness:
  "wordCountRule ''strings longer than 10 and shorter than 5''
       (palindromeRule ''strings longer than 10 and shorter than 5'' Map.empty) = Inr Map.empty
   \<and> reLongerThan ''strings longer than 10 and shorter than 5'' = Some ''10''
   \<and> reShorterThan ''strings longer than 10 and shorter than 5'' = Some ''5''
   \<and> applyRules ''strings longer than 10 and shorter than 5''
       = Inr [''min_length'' \<mapsto> VInt 11, ''max_length'' \<mapsto> VInt 4]
   \<and> ParseNaturalLanguageQuery ascii_tables ''strings longer than 10 and shorter than 5''
       = Inl ErrConflictingMinMax
   \<and> (\<exists>e. ParseNaturalLanguageQuery ascii_tables ''strings longer than 10 and shorter than 5''
            = Inl e \<and> nl_error_status e = 422)"
proof -
  have a: "wordCountRule ''strings longer than 10 and shorter than 5''
       (palindromeRule ''strings longer than 10 and shorter than 5'' Map.empty) = Inr Map.empty"
    by (simp add: re_defs rule_defs)
  have b: "reLongerThan ''strings longer than 10 and shorter than 5'' = Some ''10''"
    by (simp add: re_defs)
  have c: "reShorterThan ''strings longer than 10 and shorter than 5'' = Some ''5''"
    by (simp add: re_defs)
  have d: "applyRules ''strings longer than 10 and shorter than 5''
       = Inr [''min_length'' \<mapsto> VInt 11, ''max_length'' \<mapsto> VInt 4]"
    by (simp add: re_defs rule_defs)
  have m: "as_int [''min_length'' \<mapsto> VInt 11, ''max_length'' \<mapsto> VInt 4] ''min_length'' = Some 11"
    "as_int [''min_length'' \<mapsto> VInt 11, ''max_length'' \<mapsto> VInt 4] ''max_length'' = Some 4"
    by (simp_all add: as_int_def)
  note inst = C6_conflicting_length_bounds
    [of ascii_tables "''strings longer than 10 and shorter than 5''", unfolded lower_two_bounds]
  from inst a b c have "\<exists>e. ParseNaturalLanguageQuery ascii_tables
      ''strings longer than 10 and shorter than 5'' = Inl e \<and> nl_error_status e = 422"
    by blast
  moreover from inst [THEN conjunct2, rule_format, of _ 11 4] d m
  have "ParseNaturalLanguageQuery ascii_tables
      ''strings longer than 10 and shorter than 5'' = Inl ErrConflictingMinMax"
    by simp
  ultimately show ?thesis using a b c d by blast
qed


section \<open>Properties of the analyzer\<close>

subsection \<open>Computing digests\<close>

lemma replicate_numeral: "replicate (numeral k) x = x # replicate (pred_numeral k) x"
  by (simp add: numeral_eq_Suc)

lemma be_bytes_numeral:
  "be_bytes (numeral k) n = be_bytes (pred_numeral k) (n div 256) @ [n mod 256]"
  by (simp add: numeral_eq_Suc)

lemma schedule_numeral:
  "schedule (numeral k) ws =
     schedule (pred_numeral k)
       (add32 (add32 (ssig1 (ws ! 1)) (ws ! 6)) (add32 (ssig0 (ws ! 14)) (ws ! 15)) # ws)"
  by (simp add: numeral_eq_Suc)

lemma blocks_Nil: "blocks st [] = st"
  by (simp add: blocks.simps)

lemma blocks_Cons:
  "blocks st (b # bs) = blocks (compress st (take 64 (b # bs))) (drop 64 (b # bs))"
  by (subst blocks.simps) simp

lemmas sha_eval = generateSHA256Hash_def pad_def replicate_numeral be_bytes_numeral
  schedule_numeral compress_def blocks_Nil blocks_Cons sha256_H0_def sha256_K_def hex32_def
  hexdigit_def temp1_def temp2_def add32_def rotr_def bsig0_def bsig1_def ssig0_def ssig1_def
  ch_def maj_def

text \<open>The digest that the README shows for \<open>hello world\<close>, and the two used below.\<close>

lemma sha_hello_world:
  "generateSHA256Hash ''hello world''
     = ''b94d27b9934d3e08a52e52d7da7dabfac484efe37a5380ee9088f7ace2efcde9''"
  by (simp add: sha_eval)

lemma sha_a:
  "generateSHA256Hash ''a''
     = ''ca978112ca1bbdcafac231b39a23dc4da786eff8147c4e72b9807785afee48bb''"
  by (simp add: sha_eval)

lemma sha_sha_a:
  "generateSHA256Hash ''ca978112ca1bbdcafac231b39a23dc4da786eff8147c4e72b9807785afee48bb''
     = ''da3811154d59c4267077ddd8bb768fa9b06399c486e1fc00485116b57c9872f5''"
  by (simp add: sha_eval)

subsection \<open>The frequency map\<close>

lemma dom_increment: "dom (increment m c) = insert c (dom m)"
  by (simp add: increment_def)

lemma sum_increment:
  assumes "finite (dom m)"
  shows "(\<Sum>k\<in>dom (increment m c). the (increment m c k)) = (\<Sum>k\<in>dom m. the (m k)) + 1"
proof (cases "c \<in> dom m")
  case False
  then have "m c = None" by auto
  have "(\<Sum>k\<in>dom (increment m c). the (increment m c k))
          = the (increment m c c) + (\<Sum>k\<in>dom m. the (increment m c k))"
    using assms False by (simp add: dom_increment)
  also have "(\<Sum>k\<in>dom m. the (increment m c k)) = (\<Sum>k\<in>dom m. the (m k))"
    using False by (intro sum.cong) (auto simp: increment_def)
  also have "the (increment m c c) = 1"
    using \<open>m c = None\<close> by (simp add: increment_def)
  finally show ?thesis by simp
next
  case True
  then obtain n where n: "m c = Some n" by auto
  have d: "dom (increment m c) = dom m"
    using True by (auto simp: dom_increment)
  have "(\<Sum>k\<in>dom m. the (increment m c k))
          = the (increment m c c) + (\<Sum>k\<in>dom m - {c}. the (increment m c k))"
    using assms True by (simp add: sum.remove)
  also have "(\<Sum>k\<in>dom m - {c}. the (increment m c k)) = (\<Sum>k\<in>dom m - {c}. the (m k))"
    by (intro sum.cong) (auto simp: increment_def)
  also have "the (increment m c c) = the (m c) + 1"
    using n by (simp add: increment_def)
  finally have "(\<Sum>k\<in>dom m. the (increment m c k))
          = (the (m c) + (\<Sum>k\<in>dom m - {c}. the (m k))) + 1"
    by simp
  also have "the (m c) + (\<Sum>k\<in>dom m - {c}. the (m k)) = (\<Sum>k\<in>dom m. the (m k))"
    using assms True by (simp add: sum.remove)
  finally show ?thesis by (simp add: d)
qed

lemma fold_increment_sum:
  "finite (dom m) \<Longrightarrow>
     finite (dom (fold (\<lambda>char freqMap. increment freqMap char) rs m))
     \<and> (\<Sum>k\<in>dom (fold (\<lambda>char freqMap. increment freqMap char) rs m).
           the (fold (\<lambda>char freqMap. increment freqMap char) rs m k))
         = (\<Sum>k\<in>dom m. the (m k)) + int (length rs)"
proof (induction rs arbitrary: m)
  case Nil
  then show ?case by simp
next
  case (Cons r rs)
  have f: "finite (dom (increment m r))"
    using Cons.prems by (simp add: dom_increment)
  from Cons.IH [OF f] sum_increment [OF Cons.prems, of r]
  show ?case by simp
qed

lemma fold_increment_keys:
  "(\<forall>k n. m k = Some n \<longrightarrow> 1 \<le> n) \<Longrightarrow> r \<in> set rs \<or> r \<in> dom m \<Longrightarrow>
     \<exists>n. fold (\<lambda>char freqMap. increment freqMap char) rs m r = Some n \<and> 1 \<le> n"
proof (induction rs arbitrary: m)
  case Nil
  then show ?case by auto
next
  case (Cons c rs)
  have pos: "\<forall>k n. increment m c k = Some n \<longrightarrow> 1 \<le> n"
  proof (intro allI impI)
    fix k n
    assume i: "increment m c k = Some n"
    show "1 \<le> n"
    proof (cases "k = c")
      case False
      with i Cons.prems(1) show ?thesis by (simp add: increment_def)
    next
      case True
      show ?thesis
      proof (cases "m c")
        case None
        with i True show ?thesis by (simp add: increment_def)
      next
        case (Some x)
        with Cons.prems(1) have "1 \<le> x" by blast
        with i True Some show ?thesis by (simp add: increment_def)
      qed
    qed
  qed
  have mem: "r \<in> set rs \<or> r \<in> dom (increment m c)"
    using Cons.prems(2) by (auto simp: dom_increment)
  from Cons.IH [OF pos mem] show ?case by simp
qed

text \<open>
  C8: the counts of \<open>characterFrequency\<close> add up to \<open>length\<close>, and every code point of
  the string is a key of the map with a count of at least 1.
\<close>

theorem C8_frequency_map_complete:
  "(\<Sum>r\<in>dom (CharacterFrequencyMap (analyzeString U s)).
       the (CharacterFrequencyMap (analyzeString U s) r)) = Length (analyzeString U s)
   \<and> (\<forall>r\<in>set (runes s).
         \<exists>n. CharacterFrequencyMap (analyzeString U s) r = Some n \<and> 1 \<le> n)"
proof
  show "(\<Sum>r\<in>dom (CharacterFrequencyMap (analyzeString U s)).
       the (CharacterFrequencyMap (analyzeString U s) r)) = Length (analyzeString U s)"
    using fold_increment_sum [of Map.empty "runes s"]
    by (simp add: analyzeString_def getCharacterFrequencyMap_def calculateLength_def)
next
  show "\<forall>r\<in>set (runes s).
         \<exists>n. CharacterFrequencyMap (analyzeString U s) r = Some n \<and> 1 \<le> n"
    using fold_increment_keys [of Map.empty _ "runes s"]
    by (simp add: analyzeString_def getCharacterFrequencyMap_def)
qed

lemma runes_aab: "runes ''aab'' = [97, 97, 98]"
  by (simp add: runes_def DecodeRune_def)

theorem C8_frequency_map_complete_witness:
  "97 \<in> set (runes ''aab'')
   \<and> (\<exists>n. CharacterFrequencyMap (analyzeString ascii_tables ''aab'') 97 = Some n \<and> 1 \<le> n)
   \<and> (\<Sum>r\<in>dom (CharacterFrequencyMap (analyzeString ascii_tables ''aab'')).
         the (CharacterFrequencyMap (analyzeString ascii_tables ''aab'') r)) = 3"
proof -
  have m: "97 \<in> set (runes ''aab'')"
    by (simp add: runes_aab)
  have l: "Length (analyzeString ascii_tables ''aab'') = 3"
    by (simp add: analyzeString_def calculateLength_def runes_aab)
  from C8_frequency_map_complete [of ascii_tables "''aab''"] m l show ?thesis
    by auto
qed

section \<open>Properties of the store\<close>

lemma ID_new: "ID (newAnalyzedString U now v) = generateSHA256Hash v"
  by (simp add: newAnalyzedString_def analyzeString_def)

lemma Value_new: "Value (newAnalyzedString U now v) = v"
  by (simp add: newAnalyzedString_def)

subsection \<open>Explicit filters\<close>

text \<open>
  C3: a request with \<open>is_palindrome=maybe\<close>, which \<open>strconv.ParseBool\<close> rejects, is
  answered on the empty store with 200, an empty list and no applied filter, not with the
  invalid-filter error: the handler validates the parameters inside its loop over the
  records, so that no record means no validation.
\<close>

theorem C3_empty_store_skips_validation:
  "strconv_ParseBool ''maybe'' = None
   \<and> GetFilteredStringsHandler (\<lambda>k. if k = ''is_palindrome'' then ''maybe'' else []) []
       = OK_filtered [] 0 Map.empty"
  by (simp add: strconv_ParseBool_def GetFilteredStringsHandler_def)

text \<open>On a store with at least one record an invalid parameter is answered with 400,
  whatever the records are.\<close>

lemma check_is_palindrome_Inr:
  "check_is_palindrome query str fm = Inr x \<Longrightarrow>
     query ''is_palindrome'' = [] \<or> strconv_ParseBool (query ''is_palindrome'') \<noteq> None"
  by (auto simp: check_is_palindrome_def split: if_splits option.splits)

lemma check_min_length_Inr:
  "check_min_length query str fm = Inr x \<Longrightarrow>
     query ''min_length'' = [] \<or> (\<exists>val. strconv_Atoi (query ''min_length'') = Some val \<and> 0 \<le> val)"
  by (auto simp: check_min_length_def split: if_splits option.splits)

lemma check_max_length_Inr:
  "check_max_length query str fm = Inr x \<Longrightarrow>
     query ''max_length'' = [] \<or> (\<exists>val. strconv_Atoi (query ''max_length'') = Some val \<and> 0 \<le> val)"
  by (auto simp: check_max_length_def split: if_splits option.splits)

lemma check_word_count_Inr:
  "check_word_count query str fm = Inr x \<Longrightarrow>
     query ''word_count'' = [] \<or> (\<exists>val. strconv_Atoi (query ''word_count'') = Some val \<and> 0 \<le> val)"
  by (auto simp: check_word_count_def split: if_splits option.splits)

lemma check_contains_character_Inr:
  "check_contains_character query str fm = Inr x \<Longrightarrow>
     query ''contains_character'' = [] \<or> length (runes (query ''contains_character'')) = 1"
  by (auto simp: check_contains_character_def split: if_splits list.splits)

lemma loop_body_Inr:
  assumes "loop_body query str filters = Inr r"
  shows "\<exists>fm1 fm2 fm3 fm4.
           check_is_palindrome query str (filters, True) = Inr fm1
           \<and> check_min_length query str fm1 = Inr fm2
           \<and> check_max_length query str fm2 = Inr fm3
           \<and> check_word_count query str fm3 = Inr fm4
           \<and> check_contains_character query str fm4 = Inr r"
proof -
  obtain fm1 where 1: "check_is_palindrome query str (filters, True) = Inr fm1"
    using assms by (cases "check_is_palindrome query str (filters, True)") (simp_all add: loop_body_def)
  obtain fm2 where 2: "check_min_length query str fm1 = Inr fm2"
    using assms 1 by (cases "check_min_length query str fm1") (simp_all add: loop_body_def)
  obtain fm3 where 3: "check_max_length query str fm2 = Inr fm3"
    using assms 1 2 by (cases "check_max_length query str fm2") (simp_all add: loop_body_def)
  obtain fm4 where 4: "check_word_count query str fm3 = Inr fm4"
    using assms 1 2 3 by (cases "check_word_count query str fm3") (simp_all add: loop_body_def)
  have "check_contains_character query str fm4 = Inr r"
    using assms 1 2 3 4 by (simp add: loop_body_def)
  with 1 2 3 4 show ?thesis by blast
qed

lemma invalid_filter_rejected:
  assumes "invalid_filter_request query"
  shows "\<exists>msg. GetFilteredStringsHandler query (str # strs) = BadRequest msg"
proof (cases "loop_body query str Map.empty")
  case (Inl msg)
  then show ?thesis by (simp add: GetFilteredStringsHandler_def)
next
  case (Inr r)
  from loop_body_Inr [OF Inr] obtain fm1 fm2 fm3 fm4 where
    c1: "check_is_palindrome query str (Map.empty, True) = Inr fm1" and
    c2: "check_min_length query str fm1 = Inr fm2" and
    c3: "check_max_length query str fm2 = Inr fm3" and
    c4: "check_word_count query str fm3 = Inr fm4" and
    c5: "check_contains_character query str fm4 = Inr r"
    by blast
  note v1 = check_is_palindrome_Inr [OF c1]
  note v2 = check_min_length_Inr [OF c2]
  note v3 = check_max_length_Inr [OF c3]
  note v4 = check_word_count_Inr [OF c4]
  note v5 = check_contains_character_Inr [OF c5]
  have n1: "\<not> (query ''is_palindrome'' \<noteq> [] \<and> strconv_ParseBool (query ''is_palindrome'') = None)"
    using v1 by blast
  have n2: "\<not> (query ''min_length'' \<noteq> [] \<and> (case strconv_Atoi (query ''min_length'') of
                                            None \<Rightarrow> True | Some val \<Rightarrow> val < 0))"
    using v2 by auto
  have n3: "\<not> (query ''max_length'' \<noteq> [] \<and> (case strconv_Atoi (query ''max_length'') of
                                            None \<Rightarrow> True | Some val \<Rightarrow> val < 0))"
    using v3 by auto
  have n4: "\<not> (query ''word_count'' \<noteq> [] \<and> (case strconv_Atoi (query ''word_count'') of
                                            None \<Rightarrow> True | Some val \<Rightarrow> val < 0))"
    using v4 by auto
  have n5: "\<not> (query ''contains_character'' \<noteq> []
          \<and> length (runes (query ''contains_character'')) \<noteq> 1)"
    using v5 by blast
  have "\<not> invalid_filter_request query"
    unfolding invalid_filter_request_def using n1 n2 n3 n4 n5 by blast
  with assms show ?thesis by simp
qed

subsection \<open>Two concurrent creations of one value\<close>

text \<open>
  C4: two calls of \<open>CreateStringHandler\<close> with the value \<open>a\<close> on the empty store, each
  passing its check before the other inserts: both answer 201 with a record, and the
  second insertion overwrites the first. The check and the insertion are two locked
  sections, not one.
\<close>

theorem C4_both_creations_succeed:
  "run_schedule ascii_tables [(0, 1), (1, 1), (0, 2), (1, 3)]
       ([AtCheck ''a'', AtCheck ''a''], Map.empty)
     = ([Answered (Created (newAnalyzedString ascii_tables 2 ''a'')),
         Answered (Created (newAnalyzedString ascii_tables 3 ''a''))],
        [generateSHA256Hash ''a'' \<mapsto> newAnalyzedString ascii_tables 3 ''a''])"
  by (simp add: call_step_def ID_new)

subsection \<open>Round trip\<close>

lemma create_fresh:
  "v \<noteq> [] \<Longrightarrow> stringStore (generateSHA256Hash v) = None \<Longrightarrow>
     CreateStringHandler U now (BodyValue v) stringStore
       = (Created (newAnalyzedString U now v),
          stringStore(generateSHA256Hash v \<mapsto> newAnalyzedString U now v))"
  by (simp add: CreateStringHandler_def ID_new)

text \<open>The empty value is refused with 400 and nothing is stored.\<close>

lemma create_empty_value:
  "CreateStringHandler U now (BodyValue []) stringStore = (BadRequest missing_value, stringStore)"
  by (simp add: CreateStringHandler_def)

lemma create_Created:
  assumes "CreateStringHandler U now (BodyValue v) stringStore = (Created a, stringStore')"
  shows "a = newAnalyzedString U now v \<and> stringStore' = stringStore(generateSHA256Hash v \<mapsto> a)"
  using assms by (auto simp: CreateStringHandler_def ID_new split: if_splits)

lemma insert_Created:
  assumes "call_step U now (AtInsert v) stringStore = (Answered (Created a), stringStore')"
  shows "a = newAnalyzedString U now v \<and> stringStore' = stringStore(generateSHA256Hash v \<mapsto> a)"
  using assms by (auto simp: call_step_def ID_new)

lemma lookup_after_insert:
  assumes "a = newAnalyzedString U now v"
  shows "GetSpecificStringHandler (ID a) (stringStore(generateSHA256Hash v \<mapsto> a)) = OK_string a
         \<and> (stringStore v = None \<longrightarrow>
              GetSpecificStringHandler v (stringStore(generateSHA256Hash v \<mapsto> a)) = OK_string a)"
  using assms by (auto simp: GetSpecificStringHandler_def ID_new)

text \<open>
  C5, as the claim states it, fails: on the store that holds the string \<open>a\<close>, the value
  that is the text of the id of \<open>a\<close> is not in the store and is created; looked up by
  that value, the store answers with the record of \<open>a\<close>, found under the literal id, and
  not with the record just created.
\<close>

theorem C5_value_that_is_an_id_counterexample:
  "snd (CreateStringHandler ascii_tables 1 (BodyValue ''a'') Map.empty)
       (generateSHA256Hash ''ca978112ca1bbdcafac231b39a23dc4da786eff8147c4e72b9807785afee48bb'') = None
   \<and> fst (CreateStringHandler ascii_tables 2
            (BodyValue ''ca978112ca1bbdcafac231b39a23dc4da786eff8147c4e72b9807785afee48bb'')
            (snd (CreateStringHandler ascii_tables 1 (BodyValue ''a'') Map.empty)))
       = Created (newAnalyzedString ascii_tables 2
            ''ca978112ca1bbdcafac231b39a23dc4da786eff8147c4e72b9807785afee48bb'')
   \<and> GetSpecificStringHandler ''ca978112ca1bbdcafac231b39a23dc4da786eff8147c4e72b9807785afee48bb''
         (snd (CreateStringHandler ascii_tables 2
            (BodyValue ''ca978112ca1bbdcafac231b39a23dc4da786eff8147c4e72b9807785afee48bb'')
            (snd (CreateStringHandler ascii_tables 1 (BodyValue ''a'') Map.empty))))
       = OK_string (newAnalyzedString ascii_tables 1 ''a'')
   \<and> newAnalyzedString ascii_tables 1 ''a''
       \<noteq> newAnalyzedString ascii_tables 2
            ''ca978112ca1bbdcafac231b39a23dc4da786eff8147c4e72b9807785afee48bb''"
proof -
  have s1: "snd (CreateStringHandler ascii_tables 1 (BodyValue ''a'') Map.empty)
      = [''ca978112ca1bbdcafac231b39a23dc4da786eff8147c4e72b9807785afee48bb''
           \<mapsto> newAnalyzedString ascii_tables 1 ''a'']"
    by (simp add: create_fresh sha_a)
  have fresh: "[''ca978112ca1bbdcafac231b39a23dc4da786eff8147c4e72b9807785afee48bb''
           \<mapsto> newAnalyzedString ascii_tables 1 ''a'']
        (generateSHA256Hash ''ca978112ca1bbdcafac231b39a23dc4da786eff8147c4e72b9807785afee48bb'') = None"
    by (simp add: sha_sha_a)
  have ne: "''ca978112ca1bbdcafac231b39a23dc4da786eff8147c4e72b9807785afee48bb'' \<noteq> []"
    by simp
  have neq: "newAnalyzedString ascii_tables 1 ''a''
       \<noteq> newAnalyzedString ascii_tables 2
            ''ca978112ca1bbdcafac231b39a23dc4da786eff8147c4e72b9807785afee48bb''"
  proof
    assume "newAnalyzedString ascii_tables 1 ''a''
       = newAnalyzedString ascii_tables 2
            ''ca978112ca1bbdcafac231b39a23dc4da786eff8147c4e72b9807785afee48bb''"
    then have "Value (newAnalyzedString ascii_tables 1 ''a'')
       = Value (newAnalyzedString ascii_tables 2
            ''ca978112ca1bbdcafac231b39a23dc4da786eff8147c4e72b9807785afee48bb'')"
      by simp
    then show False by (simp add: Value_new)
  qed
  note c2 = create_fresh [of "''ca978112ca1bbdcafac231b39a23dc4da786eff8147c4e72b9807785afee48bb''"
      "[''ca978112ca1bbdcafac231b39a23dc4da786eff8147c4e72b9807785afee48bb''
           \<mapsto> newAnalyzedString ascii_tables 1 ''a'']" ascii_tables 2, OF ne fresh]
  show ?thesis
    unfolding s1 c2
    using fresh neq by (simp add: GetSpecificStringHandler_def sha_sha_a)
qed

lemma round_trip_alone:
  assumes "CreateStringHandler U now (BodyValue v) stringStore = (Created a, stringStore')"
  shows "ID a = generateSHA256Hash v \<and> Value a = v
        \<and> GetSpecificStringHandler (ID a) stringStore' = OK_string a
        \<and> (stringStore v = None \<longrightarrow> GetSpecificStringHandler v stringStore' = OK_string a)"
proof -
  from create_Created [OF assms]
  have a: "a = newAnalyzedString U now v"
    and s: "stringStore' = stringStore(generateSHA256Hash v \<mapsto> a)"
    by simp_all
  from lookup_after_insert [OF a, of stringStore] a s
  show ?thesis
    by (simp add: ID_new Value_new)
qed

lemma round_trip_insert:
  assumes "call_step U now (AtInsert v) stringStore = (Answered (Created a), stringStore')"
  shows "ID a = generateSHA256Hash v \<and> Value a = v
        \<and> GetSpecificStringHandler (ID a) stringStore' = OK_string a
        \<and> (stringStore v = None \<longrightarrow> GetSpecificStringHandler v stringStore' = OK_string a)"
proof -
  from insert_Created [OF assms]
  have a: "a = newAnalyzedString U now v"
    and s: "stringStore' = stringStore(generateSHA256Hash v \<mapsto> a)"
    by simp_all
  from lookup_after_insert [OF a, of stringStore] a s
  show ?thesis
    by (simp add: ID_new Value_new)
qed

text \<open>
  C5, amended: for a value not yet in the store, if \<open>create\<close> succeeds and returns a
  record, then the id of the record is the hash of the value, the lookup by that id finds
  the record, and the lookup by the value finds it too provided that no record of the
  store has the text of the value as its id. The same holds of the insertion of a
  creation that other calls have interleaved, on the store as the insertion finds it.
\<close>

theorem C5_round_trip:
  "(stringStore (generateSHA256Hash v) = None
      \<and> CreateStringHandler U now (BodyValue v) stringStore = (Created a, stringStore')
    \<longrightarrow> ID a = generateSHA256Hash v \<and> Value a = v
        \<and> GetSpecificStringHandler (ID a) stringStore' = OK_string a
        \<and> (stringStore v = None \<longrightarrow> GetSpecificStringHandler v stringStore' = OK_string a))
   \<and> (call_step U now (AtInsert v) stringStore = (Answered (Created a), stringStore')
    \<longrightarrow> ID a = generateSHA256Hash v \<and> Value a = v
        \<and> GetSpecificStringHandler (ID a) stringStore' = OK_string a
        \<and> (stringStore v = None \<longrightarrow> GetSpecificStringHandler v stringStore' = OK_string a))"
  using round_trip_alone [of U now v stringStore a stringStore']
    round_trip_insert [of U now v stringStore a stringStore']
  by blast

theorem C5_round_trip_witness:
  "(Map.empty :: store) (generateSHA256Hash ''a'') = None
   \<and> (Map.empty :: store) ''a'' = None
   \<and> CreateStringHandler ascii_tables 1 (BodyValue ''a'') Map.empty
       = (Created (newAnalyzedString ascii_tables 1 ''a''),
          [generateSHA256Hash ''a'' \<mapsto> newAnalyzedString ascii_tables 1 ''a''])
   \<and> call_step ascii_tables 1 (AtInsert ''a'') Map.empty
       = (Answered (Created (newAnalyzedString ascii_tables 1 ''a'')),
          [generateSHA256Hash ''a'' \<mapsto> newAnalyzedString ascii_tables 1 ''a''])
   \<and> GetSpecificStringHandler ''a''
         [generateSHA256Hash ''a'' \<mapsto> newAnalyzedString ascii_tables 1 ''a'']
       = OK_string (newAnalyzedString ascii_tables 1 ''a'')
   \<and> GetSpecificStringHandler (generateSHA256Hash ''a'')
         [generateSHA256Hash ''a'' \<mapsto> newAnalyzedString ascii_tables 1 ''a'']
       = OK_string (newAnalyzedString ascii_tables 1 ''a'')"
proof -
  have c: "CreateStringHandler ascii_tables 1 (BodyValue ''a'') Map.empty
       = (Created (newAnalyzedString ascii_tables 1 ''a''),
          [generateSHA256Hash ''a'' \<mapsto> newAnalyzedString ascii_tables 1 ''a''])"
    by (simp add: create_fresh)
  have i: "call_step ascii_tables 1 (AtInsert ''a'') Map.empty
       = (Answered (Created (newAnalyzedString ascii_tables 1 ''a'')),
          [generateSHA256Hash ''a'' \<mapsto> newAnalyzedString ascii_tables 1 ''a''])"
    by (simp add: call_step_def ID_new)
  note r = C5_round_trip [of Map.empty "''a''" ascii_tables 1
      "newAnalyzedString ascii_tables 1 ''a''"
      "[generateSHA256Hash ''a'' \<mapsto> newAnalyzedString ascii_tables 1 ''a'']"]
  from r [THEN conjunct1] c
  have g: "GetSpecificStringHandler (generateSHA256Hash ''a'')
         [generateSHA256Hash ''a'' \<mapsto> newAnalyzedString ascii_tables 1 ''a'']
       = OK_string (newAnalyzedString ascii_tables 1 ''a'')
     \<and> GetSpecificStringHandler ''a''
         [generateSHA256Hash ''a'' \<mapsto> newAnalyzedString ascii_tables 1 ''a'']
       = OK_string (newAnalyzedString ascii_tables 1 ''a'')"
    by (simp add: ID_new)
  from r [THEN conjunct2] i
  have "GetSpecificStringHandler ''a''
         [generateSHA256Hash ''a'' \<mapsto> newAnalyzedString ascii_tables 1 ''a'']
       = OK_string (newAnalyzedString ascii_tables 1 ''a'')"
    by simp
  with g c i show ?thesis by simp
qed

subsection \<open>The invariant of the store\<close>

lemma store_inv_empty: "store_inv Map.empty"
  by (simp add: store_inv_def)

lemma store_inv_keys:
  "store_inv s \<longleftrightarrow> (\<forall>k a. s k = Some a \<longrightarrow> ID a = k \<and> ID a = generateSHA256Hash (Value a))"
  unfolding store_inv_def by metis

text \<open>What does hold: every locked section of a creation, every deletion and every
  creation that runs alone keep ids distinct and equal to key and digest; a deletion and
  a creation that runs alone change no record that is in the store.\<close>

lemma call_step_inv:
  "store_inv s \<Longrightarrow> store_inv (snd (call_step U now call s))"
  unfolding store_inv_keys
  by (cases call) (auto simp: call_step_def ID_new Value_new)

lemma create_alone_inv:
  "store_inv s \<Longrightarrow> store_inv (snd (CreateStringHandler U now body s))
     \<and> records_kept s (snd (CreateStringHandler U now body s))"
  unfolding store_inv_keys records_kept_def
  by (cases body) (auto simp: CreateStringHandler_def ID_new Value_new)

lemma delete_inv:
  "store_inv s \<Longrightarrow> store_inv (snd (DeleteStringHandler token s))
     \<and> records_kept s (snd (DeleteStringHandler token s))"
  unfolding store_inv_keys records_kept_def
  by (auto simp: DeleteStringHandler_def)

text \<open>
  C9: the part of the invariant that says that a record is never modified after its
  insertion does not hold of the program. In the schedule of C4, after the insertion of
  the first call the store holds the record created at time 2; the insertion of the
  second call, which passed its check before, replaces it under the same key by a record
  created at time 3. It is the defect of C4: the insertion writes whatever the store
  holds.
\<close>

theorem C9_insertion_replaces_record:
  "snd (run_schedule ascii_tables [(0, 1), (1, 1), (0, 2)]
          ([AtCheck ''a'', AtCheck ''a''], Map.empty)) (generateSHA256Hash ''a'')
     = Some (newAnalyzedString ascii_tables 2 ''a'')
   \<and> snd (run_schedule ascii_tables [(0, 1), (1, 1), (0, 2), (1, 3)]
          ([AtCheck ''a'', AtCheck ''a''], Map.empty)) (generateSHA256Hash ''a'')
     = Some (newAnalyzedString ascii_tables 3 ''a'')
   \<and> CreatedAt (newAnalyzedString ascii_tables 2 ''a'') = 2
   \<and> CreatedAt (newAnalyzedString ascii_tables 3 ''a'') = 3
   \<and> newAnalyzedString ascii_tables 2 ''a'' \<noteq> newAnalyzedString ascii_tables 3 ''a''"
proof -
  have t: "CreatedAt (newAnalyzedString ascii_tables 2 ''a'') = 2"
    "CreatedAt (newAnalyzedString ascii_tables 3 ''a'') = 3"
    by (simp_all add: newAnalyzedString_def)
  have n: "newAnalyzedString ascii_tables 2 ''a'' \<noteq> newAnalyzedString ascii_tables 3 ''a''"
  proof
    assume "newAnalyzedString ascii_tables 2 ''a'' = newAnalyzedString ascii_tables 3 ''a''"
    then have "CreatedAt (newAnalyzedString ascii_tables 2 ''a'')
        = CreatedAt (newAnalyzedString ascii_tables 3 ''a'')"
      by simp
    with t show False by simp
  qed
  have 1: "snd (run_schedule ascii_tables [(0, 1), (1, 1), (0, 2)]
          ([AtCheck ''a'', AtCheck ''a''], Map.empty)) (generateSHA256Hash ''a'')
     = Some (newAnalyzedString ascii_tables 2 ''a'')"
    by (simp add: call_step_def ID_new)
  have 2: "snd (run_schedule ascii_tables [(0, 1), (1, 1), (0, 2), (1, 3)]
          ([AtCheck ''a'', AtCheck ''a''], Map.empty)) (generateSHA256Hash ''a'')
     = Some (newAnalyzedString ascii_tables 3 ''a'')"
    by (simp add: call_step_def ID_new)
  from 1 2 t n show ?thesis by simp
qed

section \<open>UTF-8: decoding what was encoded\<close>

lemma decode2_valid:
  "0xC2 \<le> b0 \<Longrightarrow> b0 \<le> 0xDF \<Longrightarrow> valid_rune (fst (decode2 b0 bs))"
  by (auto simp: decode2_def valid_rune_def RuneError_def cont_byte_def split: list.splits)

lemma decode3_valid:
  "0xE0 \<le> b0 \<Longrightarrow> b0 \<le> 0xEF \<Longrightarrow> valid_rune (fst (decode3 b0 bs))"
  by (auto simp: decode3_def valid_rune_def RuneError_def cont_byte_def split: list.splits if_splits)

lemma decode4_valid:
  "0xF0 \<le> b0 \<Longrightarrow> b0 \<le> 0xF4 \<Longrightarrow> valid_rune (fst (decode4 b0 bs))"
  by (auto simp: decode4_def valid_rune_def RuneError_def cont_byte_def split: list.splits if_splits)

lemma DecodeRune_valid: "valid_rune (fst (DecodeRune bs))"
proof (cases bs)
  case Nil
  then show ?thesis by (simp add: DecodeRune_def valid_rune_def RuneError_def)
next
  case (Cons b0 rest)
  then show ?thesis
    using decode2_valid [of b0 rest] decode3_valid [of b0 rest] decode4_valid [of b0 rest]
    by (simp add: DecodeRune_def) (simp add: valid_rune_def RuneError_def)
qed

lemma runes_from_valid: "r \<in> set (runes_from skip bs) \<Longrightarrow> valid_rune r"
  by (induction skip bs rule: runes_from.induct) (auto simp: DecodeRune_valid)

lemma runes_valid: "r \<in> set (runes s) \<Longrightarrow> valid_rune r"
  unfolding runes_def by (rule runes_from_valid)

lemma Decode_Encode_1:
  "r < 0x80 \<Longrightarrow> DecodeRune (EncodeRune r @ rest) = (r, 1)"
  by (simp add: EncodeRune_def DecodeRune_def)

lemma decode_pair:
  "2 \<le> hi \<Longrightarrow> hi \<le> 31 \<Longrightarrow> lo < 64 \<Longrightarrow>
     DecodeRune ((192 + hi) # (128 + lo) # rest) = (hi * 64 + lo, 2)"
  by (simp add: DecodeRune_def decode2_def cont_byte_def)

lemma decode_triple:
  "h \<le> 15 \<Longrightarrow> m < 64 \<Longrightarrow> lo < 64 \<Longrightarrow> (h = 0 \<longrightarrow> 32 \<le> m) \<Longrightarrow> (h = 13 \<longrightarrow> m \<le> 31) \<Longrightarrow>
     DecodeRune ((224 + h) # (128 + m) # (128 + lo) # rest) = (h * 4096 + m * 64 + lo, 3)"
  by (simp add: DecodeRune_def decode3_def cont_byte_def)

lemma decode_quad:
  "h \<le> 4 \<Longrightarrow> m < 64 \<Longrightarrow> n < 64 \<Longrightarrow> lo < 64 \<Longrightarrow> (h = 0 \<longrightarrow> 16 \<le> m) \<Longrightarrow> (h = 4 \<longrightarrow> m \<le> 15) \<Longrightarrow>
     DecodeRune ((240 + h) # (128 + m) # (128 + n) # (128 + lo) # rest)
       = (h * 262144 + m * 4096 + n * 64 + lo, 4)"
  by (simp add: DecodeRune_def decode4_def cont_byte_def)

lemma Decode_Encode_2:
  assumes "0x80 \<le> r" "r < 0x800"
  shows "DecodeRune (EncodeRune r @ rest) = (r, 2)"
proof -
  have enc: "EncodeRune r = [192 + r div 64, 128 + r mod 64]"
    using assms by (simp add: EncodeRune_def)
  have a: "2 \<le> r div 64" "r div 64 \<le> 31" "r mod 64 < 64"
    using assms by auto
  have b: "r div 64 * 64 + r mod 64 = r"
    by simp
  from decode_pair [OF a, of rest] show ?thesis
    unfolding enc b by simp
qed

lemma split_three:
  fixes r :: nat
  shows "r div 4096 * 4096 + r div 64 mod 64 * 64 + r mod 64 = r"
proof -
  have 1: "r div 64 * 64 + r mod 64 = r"
    by simp
  have 2: "r div 64 div 64 * 64 + r div 64 mod 64 = r div 64"
    by simp
  have 3: "r div 64 div 64 = r div 4096"
    by (simp add: div_mult2_eq [symmetric])
  define q where "q = r div 64"
  define h where "h = r div 4096"
  define m where "m = r div 64 mod 64"
  define lo where "lo = r mod 64"
  have "q * 64 + lo = r" "h * 64 + m = q"
    using 1 2 3 by (simp_all add: q_def h_def m_def lo_def)
  then have "h * 4096 + m * 64 + lo = r"
    by simp
  then show ?thesis
    by (simp add: h_def m_def lo_def)
qed

lemma split_four:
  fixes r :: nat
  shows "r div 262144 * 262144 + r div 4096 mod 64 * 4096 + r div 64 mod 64 * 64 + r mod 64 = r"
proof -
  have 1: "r div 4096 * 4096 + r div 64 mod 64 * 64 + r mod 64 = r"
    by (rule split_three)
  have 2: "r div 4096 div 64 * 64 + r div 4096 mod 64 = r div 4096"
    by simp
  have 3: "r div 4096 div 64 = r div 262144"
    by (simp add: div_mult2_eq [symmetric])
  define q where "q = r div 4096"
  define h where "h = r div 262144"
  define m where "m = r div 4096 mod 64"
  define n where "n = r div 64 mod 64"
  define lo where "lo = r mod 64"
  have "q * 4096 + n * 64 + lo = r" "h * 64 + m = q"
    using 1 2 3 by (simp_all add: q_def h_def m_def n_def lo_def)
  then have "h * 262144 + m * 4096 + n * 64 + lo = r"
    by simp
  then show ?thesis
    by (simp add: h_def m_def n_def lo_def)
qed

lemma Decode_Encode_3:
  assumes "0x800 \<le> r" "r < 0x10000" "valid_rune r"
  shows "DecodeRune (EncodeRune r @ rest) = (r, 3)"
proof -
  have enc: "EncodeRune r = [224 + r div 4096, 128 + r div 64 mod 64, 128 + r mod 64]"
    using assms by (simp add: EncodeRune_def)
  define h where "h = r div 4096"
  define m where "m = r div 64 mod 64"
  define lo where "lo = r mod 64"
  have b: "h * 4096 + m * 64 + lo = r"
    unfolding h_def m_def lo_def by (rule split_three)
  have m: "m < 64" and lo: "lo < 64"
    by (simp_all add: m_def lo_def)
  have h: "h \<le> 15"
    using assms(2) b by linarith
  have e0: "h = 0 \<longrightarrow> 32 \<le> m"
    using assms(1) b lo by linarith
  have nosur: "r < 0xD800 \<or> 0xDFFF < r"
    using assms(3) by (auto simp: valid_rune_def)
  have ed: "h = 13 \<longrightarrow> m \<le> 31"
    using nosur b m lo by linarith
  from decode_triple [OF h m lo e0 ed, of rest] show ?thesis
    unfolding enc b h_def [symmetric] m_def [symmetric] lo_def [symmetric] by simp
qed

lemma Decode_Encode_4:
  assumes "0x10000 \<le> r" "valid_rune r"
  shows "DecodeRune (EncodeRune r @ rest) = (r, 4)"
proof -
  have le: "r \<le> 0x10FFFF"
    using assms by (simp add: valid_rune_def)
  have enc: "EncodeRune r = [240 + r div 262144, 128 + r div 4096 mod 64,
                             128 + r div 64 mod 64, 128 + r mod 64]"
    using assms by (simp add: EncodeRune_def)
  define h where "h = r div 262144"
  define m where "m = r div 4096 mod 64"
  define n where "n = r div 64 mod 64"
  define lo where "lo = r mod 64"
  have b: "h * 262144 + m * 4096 + n * 64 + lo = r"
    unfolding h_def m_def n_def lo_def by (rule split_four)
  have m: "m < 64" and n: "n < 64" and lo: "lo < 64"
    by (simp_all add: m_def n_def lo_def)
  have h: "h \<le> 4"
    using le b by linarith
  have e0: "h = 0 \<longrightarrow> 16 \<le> m"
    using assms(1) b n lo by linarith
  have e4: "h = 4 \<longrightarrow> m \<le> 15"
    using le b by linarith
  from decode_quad [OF h m n lo e0 e4, of rest] show ?thesis
    unfolding enc b h_def [symmetric] m_def [symmetric] n_def [symmetric] lo_def [symmetric]
    by simp
qed

lemma Decode_Encode_invalid:
  assumes "\<not> valid_rune r"
  shows "DecodeRune (EncodeRune r @ rest) = (RuneError, 3)"
proof -
  have "0x800 \<le> r"
    using assms unfolding valid_rune_def by linarith
  then show ?thesis
    using assms
    by (simp add: EncodeRune_def DecodeRune_def decode3_def cont_byte_def RuneError_def)
qed

lemma Decode_Encode:
  "DecodeRune (EncodeRune r @ rest) = (fix_rune r, length (EncodeRune r))"
proof (cases "valid_rune r")
  case False
  then show ?thesis
    using Decode_Encode_invalid [OF False, of rest]
    by (auto simp: fix_rune_def EncodeRune_def valid_rune_def)
next
  case True
  consider "r < 0x80" | "0x80 \<le> r" "r < 0x800" | "0x800 \<le> r" "r < 0x10000" | "0x10000 \<le> r"
    by linarith
  then show ?thesis
  proof cases
    case 1
    then show ?thesis using True Decode_Encode_1 [of r rest]
      by (simp add: fix_rune_def EncodeRune_def)
  next
    case 2
    then show ?thesis using True Decode_Encode_2 [of r rest]
      by (simp add: fix_rune_def EncodeRune_def)
  next
    case 3
    then show ?thesis using True Decode_Encode_3 [of r rest]
      by (simp add: fix_rune_def EncodeRune_def)
  next
    case 4
    then show ?thesis using True Decode_Encode_4 [of r rest]
      by (simp add: fix_rune_def EncodeRune_def)
  qed
qed

lemma EncodeRune_nonempty: "EncodeRune r \<noteq> []"
  by (simp add: EncodeRune_def)

lemma EncodeRune_bytes: "b \<in> set (EncodeRune r) \<Longrightarrow> b < 256"
proof (cases "valid_rune r")
  case False
  assume "b \<in> set (EncodeRune r)"
  with False show ?thesis
    by (auto simp: EncodeRune_def valid_rune_def)
next
  case True
  assume m: "b \<in> set (EncodeRune r)"
  have le: "r \<le> 0x10FFFF" using True by (simp add: valid_rune_def)
  have "r div 262144 \<le> 4" "r < 0x10000 \<Longrightarrow> r div 4096 \<le> 15" "r < 0x800 \<Longrightarrow> r div 64 \<le> 31"
    "r div 4096 mod 64 < 64" "r div 64 mod 64 < 64" "r mod 64 < 64"
    using le by auto
  with m True show ?thesis
    by (auto simp: EncodeRune_def split: if_splits)
qed

lemma runes_from_skip: "runes_from (length xs) (xs @ ys) = runes_from 0 ys"
proof (induction xs)
  case Nil
  then show ?case by simp
next
  case (Cons x xs)
  then show ?case by simp
qed

lemma runes_from_Encode:
  "runes_from 0 (EncodeRune r @ rest) = fix_rune r # runes_from 0 rest"
proof -
  obtain b bs where e: "EncodeRune r = b # bs"
    using EncodeRune_nonempty [of r] by (cases "EncodeRune r") auto
  have d: "DecodeRune (b # bs @ rest) = (fix_rune r, Suc (length bs))"
    using Decode_Encode [of r rest] by (simp add: e)
  have "runes_from 0 (b # bs @ rest) = fix_rune r # runes_from (length bs) (bs @ rest)"
    by (simp add: d)
  then show ?thesis
    by (simp add: e runes_from_skip)
qed

lemma runes_from_concat:
  "runes_from 0 (concat (map EncodeRune rs)) = map fix_rune rs"
proof (induction rs)
  case Nil
  then show ?case by simp
next
  case (Cons r rs)
  then show ?case by (simp add: runes_from_Encode)
qed

lemma of_char_char_of_byte: "b < 256 \<Longrightarrow> (of_char (char_of b) :: nat) = b"
  by (simp add: of_char_of)

lemma runes_string_of_runes: "runes (string_of_runes rs) = map fix_rune rs"
proof -
  have "map (\<lambda>b. (of_char (char_of b :: char) :: nat)) (concat (map EncodeRune rs))
               = concat (map EncodeRune rs)"
  proof (rule map_idI)
    fix b assume "b \<in> set (concat (map EncodeRune rs))"
    then obtain r where "b \<in> set (EncodeRune r)" by auto
    then have "b < 256" by (rule EncodeRune_bytes)
    then show "(of_char (char_of b :: char) :: nat) = b" by (rule of_char_char_of_byte)
  qed
  then show ?thesis
    by (simp add: runes_def string_of_runes_def runes_from_concat o_def)
qed

section \<open>Lower-casing\<close>

lemma runes_ToLower:
  assumes "lower_keeps_valid U"
  shows "runes (strings_ToLower U s) = map (unicode_ToLower U) (runes s)"
proof -
  have "map fix_rune (map (unicode_ToLower U) (runes s)) = map (unicode_ToLower U) (runes s)"
  proof (rule map_idI)
    fix x assume "x \<in> set (map (unicode_ToLower U) (runes s))"
    then obtain r where "r \<in> set (runes s)" "x = unicode_ToLower U r" by auto
    with assms runes_valid [of r s] have "valid_rune x"
      by (simp add: lower_keeps_valid_def)
    then show "fix_rune x = x" by (simp add: fix_rune_def)
  qed
  then show ?thesis
    by (simp add: strings_ToLower_def runes_string_of_runes)
qed

lemma ToLower_idempotent:
  assumes "lower_keeps_valid U" "lower_idempotent U"
  shows "strings_ToLower U (strings_ToLower U s) = strings_ToLower U s"
proof -
  have m: "map (unicode_ToLower U) (map (unicode_ToLower U) (runes s))
          = map (unicode_ToLower U) (runes s)"
  proof (rule map_idI)
    fix x assume "x \<in> set (map (unicode_ToLower U) (runes s))"
    then obtain r where "r \<in> set (runes s)" "x = unicode_ToLower U r" by auto
    with assms(2) runes_valid [of r s] show "unicode_ToLower U x = x"
      by (simp add: lower_idempotent_def)
  qed
  have "strings_ToLower U (strings_ToLower U s)
          = string_of_runes (map (unicode_ToLower U) (runes (strings_ToLower U s)))"
    by (simp add: strings_ToLower_def)
  also have "\<dots> = string_of_runes (map (unicode_ToLower U) (map (unicode_ToLower U) (runes s)))"
    by (simp only: runes_ToLower [OF assms(1)])
  also have "\<dots> = strings_ToLower U s"
    by (simp only: m strings_ToLower_def)
  finally show ?thesis .
qed

lemma ascii_tables_valid: "lower_keeps_valid ascii_tables"
  by (auto simp: lower_keeps_valid_def unicode_ToLower_def ascii_tables_def valid_rune_def)

lemma ascii_tables_idempotent: "lower_idempotent ascii_tables"
  by (auto simp: lower_idempotent_def unicode_ToLower_def ascii_tables_def)

lemma ascii_tables_class: "lower_keeps_class ascii_tables"
  by (auto simp: lower_keeps_class_def unicode_ToLower_def unicode_IsLetter_def
      unicode_IsNumber_def ascii_tables_def)

lemma lower_mixed_case:
  "strings_ToLower ascii_tables ''All SINGLE Word Palindromic strings LONGER than 3''
     = ''all single word palindromic strings longer than 3''"
  by (simp add: lower_defs)

text \<open>
  C10: the translator gives the same result on a query and on its lower-cased text. The
  lower-case mapping of package \<open>unicode\<close> is asked to yield code points and to map
  its own results to themselves.
\<close>

theorem C10_case_invariant:
  assumes "lower_keeps_valid U" and "lower_idempotent U"
  shows "ParseNaturalLanguageQuery U (strings_ToLower U query) = ParseNaturalLanguageQuery U query"
  unfolding ParseNaturalLanguageQuery_def ToLower_idempotent [OF assms] ..

theorem C10_case_invariant_witness:
  "lower_keeps_valid ascii_tables \<and> lower_idempotent ascii_tables
   \<and> ParseNaturalLanguageQuery ascii_tables ''All SINGLE Word Palindromic strings LONGER than 3''
       = ParseNaturalLanguageQuery ascii_tables ''all single word palindromic strings longer than 3''
   \<and> ParseNaturalLanguageQuery ascii_tables ''all single word palindromic strings longer than 3''
       = Inr [''is_palindrome'' \<mapsto> VBool True, ''word_count'' \<mapsto> VInt 1,
              ''min_length'' \<mapsto> VInt 4]"
proof -
  have l: "strings_ToLower ascii_tables ''all single word palindromic strings longer than 3''
     = ''all single word palindromic strings longer than 3''"
    by (simp add: lower_defs)
  have v: "ParseNaturalLanguageQuery ascii_tables ''all single word palindromic strings longer than 3''
       = Inr [''is_palindrome'' \<mapsto> VBool True, ''word_count'' \<mapsto> VInt 1,
              ''min_length'' \<mapsto> VInt 4]"
    unfolding ParseNaturalLanguageQuery_def l by (simp add: re_defs rule_defs)
  from C10_case_invariant [OF ascii_tables_valid ascii_tables_idempotent,
      of "''All SINGLE Word Palindromic strings LONGER than 3''"]
  have "ParseNaturalLanguageQuery ascii_tables ''All SINGLE Word Palindromic strings LONGER than 3''
       = ParseNaturalLanguageQuery ascii_tables ''all single word palindromic strings longer than 3''"
    by (simp add: lower_mixed_case)
  with v ascii_tables_valid ascii_tables_idempotent show ?thesis by simp
qed

section \<open>The palindrome check\<close>

lemma mirror_loop_iff:
  "0 \<le> i \<Longrightarrow> i + j = int (length fr) - 1 \<Longrightarrow>
     mirror_loop fr i j
       = (\<forall>k. nat i \<le> k \<and> int k \<le> j \<longrightarrow> fr ! k = fr ! (length fr - 1 - k))"
proof (induction fr i j rule: mirror_loop.induct)
  case (1 fr i j)
  show ?case
  proof (cases "i < j")
    case False
    have "\<And>k. nat i \<le> k \<Longrightarrow> int k \<le> j \<Longrightarrow> length fr - 1 - k = k"
      using False "1.prems" by linarith
    with False show ?thesis
      by (subst mirror_loop.simps) auto
  next
    case True
    have ni: "length fr - 1 - nat i = nat j" and nj: "length fr - 1 - nat j = nat i"
      using True "1.prems" by linarith+
    show ?thesis
    proof (cases "fr ! nat i = fr ! nat j")
      case False
      have "nat i \<le> nat i \<and> int (nat i) \<le> j"
        using True "1.prems" by linarith
      with False ni have "\<not> (\<forall>k. nat i \<le> k \<and> int k \<le> j \<longrightarrow> fr ! k = fr ! (length fr - 1 - k))"
        by metis
      with True False show ?thesis
        by (subst mirror_loop.simps) simp
    next
      case eq: True
      have ih: "mirror_loop fr (i + 1) (j - 1)
          = (\<forall>k. nat (i + 1) \<le> k \<and> int k \<le> j - 1 \<longrightarrow> fr ! k = fr ! (length fr - 1 - k))"
        using "1.IH" [OF True] eq "1.prems" by simp
      have "(\<forall>k. nat i \<le> k \<and> int k \<le> j \<longrightarrow> fr ! k = fr ! (length fr - 1 - k))
          = (\<forall>k. nat (i + 1) \<le> k \<and> int k \<le> j - 1 \<longrightarrow> fr ! k = fr ! (length fr - 1 - k))"
      proof
        assume a: "\<forall>k. nat i \<le> k \<and> int k \<le> j \<longrightarrow> fr ! k = fr ! (length fr - 1 - k)"
        show "\<forall>k. nat (i + 1) \<le> k \<and> int k \<le> j - 1 \<longrightarrow> fr ! k = fr ! (length fr - 1 - k)"
        proof (intro allI impI)
          fix k assume "nat (i + 1) \<le> k \<and> int k \<le> j - 1"
          then have "nat i \<le> k \<and> int k \<le> j" by linarith
          with a show "fr ! k = fr ! (length fr - 1 - k)" by blast
        qed
      next
        assume a: "\<forall>k. nat (i + 1) \<le> k \<and> int k \<le> j - 1 \<longrightarrow> fr ! k = fr ! (length fr - 1 - k)"
        show "\<forall>k. nat i \<le> k \<and> int k \<le> j \<longrightarrow> fr ! k = fr ! (length fr - 1 - k)"
        proof (intro allI impI)
          fix k assume k: "nat i \<le> k \<and> int k \<le> j"
          consider "k = nat i" | "k = nat j" | "nat (i + 1) \<le> k \<and> int k \<le> j - 1"
            using k True "1.prems" by linarith
          then show "fr ! k = fr ! (length fr - 1 - k)"
          proof cases
            case 1
            then show ?thesis using eq ni by simp
          next
            case 2
            then show ?thesis using eq nj by simp
          next
            case 3
            with a show ?thesis by blast
          qed
        qed
      qed
      with ih True eq show ?thesis
        by (subst mirror_loop.simps) simp
    qed
  qed
qed

lemma palindrome_nth:
  "(xs = rev xs) = (\<forall>k. k < length xs \<longrightarrow> xs ! k = xs ! (length xs - 1 - k))"
proof
  assume p: "xs = rev xs"
  show "\<forall>k. k < length xs \<longrightarrow> xs ! k = xs ! (length xs - 1 - k)"
  proof (intro allI impI)
    fix k assume k: "k < length xs"
    have "xs ! k = rev xs ! k" using p by simp
    also have "\<dots> = xs ! (length xs - Suc k)" using k by (rule rev_nth)
    finally show "xs ! k = xs ! (length xs - 1 - k)" by simp
  qed
next
  assume a: "\<forall>k. k < length xs \<longrightarrow> xs ! k = xs ! (length xs - 1 - k)"
  show "xs = rev xs"
  proof (rule nth_equalityI)
    show "length xs = length (rev xs)" by simp
  next
    fix k assume k: "k < length xs"
    have "rev xs ! k = xs ! (length xs - Suc k)" using k by (rule rev_nth)
    also have "length xs - Suc k = length xs - 1 - k" by simp
    also have "xs ! (length xs - 1 - k) = xs ! k" using a k by metis
    finally show "xs ! k = rev xs ! k" by (rule sym)
  qed
qed

lemma mirror_loop_rev:
  "mirror_loop fr 0 (int (length fr) - 1) = (fr = rev fr)"
proof -
  have "mirror_loop fr 0 (int (length fr) - 1)
      = (\<forall>k. nat 0 \<le> k \<and> int k \<le> int (length fr) - 1 \<longrightarrow> fr ! k = fr ! (length fr - 1 - k))"
    by (rule mirror_loop_iff) simp_all
  also have "\<dots> = (\<forall>k. k < length fr \<longrightarrow> fr ! k = fr ! (length fr - 1 - k))"
    by (intro arg_cong [where f = All] ext) auto
  finally show ?thesis by (simp add: palindrome_nth)
qed

lemma filter_lower:
  assumes "lower_keeps_class U" "\<forall>r\<in>set rs. valid_rune r"
  shows "filter (\<lambda>r. unicode_IsLetter U r \<or> unicode_IsNumber U r) (map (unicode_ToLower U) rs)
           = map (unicode_ToLower U) (filter (\<lambda>r. unicode_IsLetter U r \<or> unicode_IsNumber U r) rs)"
  using assms(2)
proof (induction rs)
  case Nil
  then show ?case by simp
next
  case (Cons r rs)
  then have "valid_rune r" by simp
  with assms(1) have "(unicode_IsLetter U (unicode_ToLower U r) \<or> unicode_IsNumber U (unicode_ToLower U r))
        = (unicode_IsLetter U r \<or> unicode_IsNumber U r)"
    by (simp add: lower_keeps_class_def)
  with Cons show ?case by simp
qed

lemma isPalindrome_rev:
  "isPalindrome U s
     = (filter (\<lambda>r. unicode_IsLetter U r \<or> unicode_IsNumber U r) (runes (strings_ToLower U s))
        = rev (filter (\<lambda>r. unicode_IsLetter U r \<or> unicode_IsNumber U r)
                 (runes (strings_ToLower U s))))"
  by (simp add: isPalindrome_def Let_def mirror_loop_rev)

lemma isPalindrome_skeleton:
  assumes "lower_keeps_valid U" "lower_keeps_class U"
  shows "isPalindrome U s = (letter_number_skeleton U s = rev (letter_number_skeleton U s))"
proof -
  have "filter (\<lambda>r. unicode_IsLetter U r \<or> unicode_IsNumber U r) (runes (strings_ToLower U s))
          = letter_number_skeleton U s"
    using filter_lower [OF assms(2), of "runes s"] runes_valid [of _ s]
    by (simp add: runes_ToLower [OF assms(1)] letter_number_skeleton_def)
  then show ?thesis
    by (simp add: isPalindrome_def Let_def mirror_loop_rev)
qed

text \<open>On a string whose numbers are all decimal digits the two sequences are one.\<close>

lemma skeletons_agree:
  assumes "\<forall>r\<in>set (runes s). unicode_IsNumber U r = unicode_IsDigit U r"
  shows "alnum_skeleton U s = letter_number_skeleton U s"
proof -
  have "filter (\<lambda>r. unicode_IsLetter U r \<or> unicode_IsDigit U r) (runes s)
          = filter (\<lambda>r. unicode_IsLetter U r \<or> unicode_IsNumber U r) (runes s)"
    using assms by (intro filter_cong) auto
  then show ?thesis
    by (simp add: alnum_skeleton_def letter_number_skeleton_def)
qed

lemma ascii_tables_numbers: "unicode_IsNumber ascii_tables r = unicode_IsDigit ascii_tables r"
  by (simp add: unicode_IsNumber_def unicode_IsDigit_def ascii_tables_def)

lemma runes_panama:
  "runes ''A man, a plan, a canal: Panama''
     = [65, 32, 109, 97, 110, 44, 32, 97, 32, 112, 108, 97, 110, 44, 32, 97, 32, 99, 97, 110, 97,
        108, 58, 32, 80, 97, 110, 97, 109, 97]"
  by (simp add: runes_def DecodeRune_def)

lemma skeleton_panama:
  "alnum_skeleton ascii_tables ''A man, a plan, a canal: Panama''
     = [97, 109, 97, 110, 97, 112, 108, 97, 110, 97, 99, 97, 110, 97, 108, 112, 97, 110, 97, 109, 97]"
  by (simp add: alnum_skeleton_def runes_panama unicode_IsLetter_def unicode_IsDigit_def
      unicode_ToLower_def)

subsection \<open>A number that is not a digit\<close>

lemma runes_a_half: "runes [CHR ''a'', CHR 0xC2, CHR 0xBD] = [0x61, 0xBD]"
  by (simp add: runes_def DecodeRune_def decode2_def cont_byte_def)

lemma lower_a_half:
  "strings_ToLower latin1_tables [CHR ''a'', CHR 0xC2, CHR 0xBD] = [CHR ''a'', CHR 0xC2, CHR 0xBD]"
  by (simp add: strings_ToLower_def runes_a_half string_of_runes_def EncodeRune_def
      unicode_ToLower_def latin1_tables_def char_of_eq_iff)

text \<open>
  C7, as the claim states it, fails: the string \<open>a\<close> followed by \<open>U+00BD\<close> (one half,
  the bytes \<open>C2 BD\<close>) keeps only \<open>a\<close> when every character that is not a letter or
  digit is removed, and \<open>a\<close> reads the same in both directions; but \<open>isPalindrome\<close>
  keeps the fraction, which \<open>unicode.IsNumber\<close> accepts, and answers no.
\<close>

theorem C7_number_not_digit_counterexample:
  "runes [CHR ''a'', CHR 0xC2, CHR 0xBD] = [0x61, 0xBD]
   \<and> unicode_IsNumber latin1_tables 0xBD \<and> \<not> unicode_IsDigit latin1_tables 0xBD
   \<and> alnum_skeleton latin1_tables [CHR ''a'', CHR 0xC2, CHR 0xBD] = [0x61]
   \<and> alnum_skeleton latin1_tables [CHR ''a'', CHR 0xC2, CHR 0xBD]
       = rev (alnum_skeleton latin1_tables [CHR ''a'', CHR 0xC2, CHR 0xBD])
   \<and> \<not> IsPalindrome (analyzeString latin1_tables [CHR ''a'', CHR 0xC2, CHR 0xBD])"
proof -
  have n: "unicode_IsNumber latin1_tables 0xBD" "\<not> unicode_IsDigit latin1_tables 0xBD"
    by (simp_all add: unicode_IsNumber_def unicode_IsDigit_def latin1_tables_def)
  have k: "alnum_skeleton latin1_tables [CHR ''a'', CHR 0xC2, CHR 0xBD] = [0x61]"
    by (simp add: alnum_skeleton_def runes_a_half unicode_IsLetter_def unicode_IsDigit_def
        unicode_ToLower_def latin1_tables_def)
  have a: "unicode_IsLetter latin1_tables 0x61"
    by (simp add: unicode_IsLetter_def)
  have "\<not> isPalindrome latin1_tables [CHR ''a'', CHR 0xC2, CHR 0xBD]"
    unfolding isPalindrome_rev lower_a_half runes_a_half
    using a n by simp
  then have p: "\<not> IsPalindrome (analyzeString latin1_tables [CHR ''a'', CHR 0xC2, CHR 0xBD])"
    by (simp add: analyzeString_def)
  from n k p show ?thesis
    by (simp add: runes_a_half)
qed

text \<open>
  C7, amended: \<open>analyze(s).isPalindrome\<close> holds exactly if the string, with every
  character that is not a letter or a number (Unicode category N: the decimal digits,
  and also fractions, superscripts and letter-like numerals) removed and the rest
  lower-cased, equals its reverse; so it holds when nothing is left. On a string whose
  numbers are all decimal digits this is the claim as it was worded. The lower-case
  mapping of package \<open>unicode\<close> is asked to yield code points and to keep letters and
  numbers what they are.
\<close>

theorem C7_isPalindrome:
  assumes "lower_keeps_valid U" and "lower_keeps_class U"
  shows "IsPalindrome (analyzeString U s)
           = (letter_number_skeleton U s = rev (letter_number_skeleton U s))
         \<and> (letter_number_skeleton U s = [] \<longrightarrow> IsPalindrome (analyzeString U s))
         \<and> ((\<forall>r\<in>set (runes s). unicode_IsNumber U r = unicode_IsDigit U r) \<longrightarrow>
              IsPalindrome (analyzeString U s) = (alnum_skeleton U s = rev (alnum_skeleton U s)))"
  using isPalindrome_skeleton [OF assms, of s] skeletons_agree [of s U]
  by (simp add: analyzeString_def)

theorem C7_isPalindrome_witness:
  "lower_keeps_valid ascii_tables \<and> lower_keeps_class ascii_tables
   \<and> IsPalindrome (analyzeString ascii_tables ''A man, a plan, a canal: Panama'')
   \<and> alnum_skeleton ascii_tables ''A man, a plan, a canal: Panama''
       = runes ''amanaplanacanalpanama''
   \<and> letter_number_skeleton ascii_tables '', . !'' = []
   \<and> IsPalindrome (analyzeString ascii_tables '', . !'')
   \<and> IsPalindrome (analyzeString ascii_tables [])
   \<and> \<not> IsPalindrome (analyzeString ascii_tables ''Go'')"
proof -
  note c7 = C7_isPalindrome [OF ascii_tables_valid ascii_tables_class]
  have d: "\<forall>r\<in>set (runes ''A man, a plan, a canal: Panama'').
         unicode_IsNumber ascii_tables r = unicode_IsDigit ascii_tables r"
    by (simp add: ascii_tables_numbers)
  have 1: "IsPalindrome (analyzeString ascii_tables ''A man, a plan, a canal: Panama'')"
    using c7 [of "''A man, a plan, a canal: Panama''", THEN conjunct2, THEN conjunct2] d
    by (simp add: skeleton_panama)
  have e: "letter_number_skeleton ascii_tables '', . !'' = []"
    by (simp add: letter_number_skeleton_def runes_def DecodeRune_def unicode_IsLetter_def
        unicode_IsNumber_def)
  have 2: "IsPalindrome (analyzeString ascii_tables '', . !'')"
    using c7 [of "'', . !''"] e by simp
  have 3: "IsPalindrome (analyzeString ascii_tables [])"
    using c7 [of "[]"] by (simp add: letter_number_skeleton_def runes_def)
  have 4: "\<not> IsPalindrome (analyzeString ascii_tables ''Go'')"
    using c7 [of "''Go''", THEN conjunct1]
    by (simp add: letter_number_skeleton_def runes_def DecodeRune_def unicode_IsLetter_def
        unicode_IsNumber_def unicode_ToLower_def)
  have 5: "alnum_skeleton ascii_tables ''A man, a plan, a canal: Panama''
       = runes ''amanaplanacanalpanama''"
    by (simp add: skeleton_panama) (simp add: runes_def DecodeRune_def)
  from 1 2 3 4 5 e ascii_tables_valid ascii_tables_class show ?thesis by simp
qed
end
